theory Spec2Isabelle
  imports Complex_Main
begin

section \<open>Single-precision arithmetic\<close>

text \<open>
  The library computes in \<^verbatim>\<open>float\<close> and \<^verbatim>\<open>std::complex<float>\<close>. The engine is modelled
  over a type \<open>'r\<close> of scalars with its \<open>0\<close>, \<open>1\<close>, \<open>+\<close>, \<open>-\<close>, \<open>*\<close>, \<open>/\<close> and \<open><\<close>, and every
  general statement holds whatever these operations are. Two arithmetics are used:
  \<^typ>\<open>real\<close>, the exact arithmetic in which the formulas of the spec are read, and
  \<open>flt\<close>, IEEE 754 binary32, in which every operation is rounded. The examples that
  evaluate the code run in \<open>flt\<close>.

  A binary32 value is a real number (one that the format represents), an infinity or a
  NaN. Signed zeros and NaN payloads are not modelled, and every operation is rounded on
  its own: a compiler that fuses a product and a sum into one operation rounds once
  where this model rounds twice.
\<close>

datatype flt = Fin real | PInf | NInf | NaN

text \<open>The integer nearest to \<open>r\<close>, the even one of the two when \<open>r\<close> is halfway.\<close>

definition round_even :: "real \<Rightarrow> int" where
  "round_even r =
     (let f = \<lfloor>r\<rfloor>; d = r - of_int f
      in if d < 1 / 2 then f else if 1 / 2 < d then f + 1 else if even f then f else f + 1)"

text \<open>
  The exponent of \<open>a \<ge> 0\<close>: the \<open>e\<close> with \<open>2\<^sup>e \<le> a < 2\<^sup>e\<^sup>+\<^sup>1\<close>, kept between \<open>-126\<close> (the
  exponent of the subnormal numbers and of 0) and \<open>127\<close>. It is found by counting up
  from 0 when \<open>1 \<le> a\<close>, and down from \<open>-1\<close> otherwise.
\<close>

fun expo_up :: "nat \<Rightarrow> int \<Rightarrow> real \<Rightarrow> int" where
  "expo_up 0 e a = e"
| "expo_up (Suc k) e a = (if a < 2 powi (e + 1) then e else expo_up k (e + 1) a)"

fun expo_down :: "nat \<Rightarrow> int \<Rightarrow> real \<Rightarrow> int" where
  "expo_down 0 e a = e"
| "expo_down (Suc k) e a = (if 2 powi e \<le> a then e else expo_down k (e - 1) a)"

definition expo :: "real \<Rightarrow> int" where
  "expo a = (if 1 \<le> a then expo_up 127 0 a else expo_down 125 (- 1) a)"

text \<open>
  Rounding to nearest, ties to even: a real \<open>x\<close> of exponent \<open>e\<close> is rounded to a multiple
  of \<open>2\<^sup>e\<^sup>-\<^sup>2\<^sup>3\<close> (24 significant bits); a result of magnitude \<open>2\<^sup>1\<^sup>2\<^sup>8\<close> or more is an
  infinity.
\<close>

definition rnd :: "real \<Rightarrow> flt" where
  "rnd x =
     (let q = 2 powi (expo \<bar>x\<bar> - 23);
          y = of_int (round_even (x / q)) * q
      in if 2 ^ 128 \<le> \<bar>y\<bar> then (if 0 < x then PInf else NInf) else Fin y)"

text \<open>The infinity of the sign of \<open>x\<close>; \<open>0 * inf\<close> is a NaN.\<close>

definition inf_of_sign :: "real \<Rightarrow> flt" where
  "inf_of_sign x = (if x = 0 then NaN else if 0 < x then PInf else NInf)"

instantiation flt :: "{zero, one, plus, minus, uminus, times, inverse, ord}"
begin

definition zero_flt :: flt where
  "zero_flt = Fin 0"

definition one_flt :: flt where
  "one_flt = Fin 1"

fun uminus_flt :: "flt \<Rightarrow> flt" where
  "uminus_flt (Fin a) = Fin (- a)"
| "uminus_flt PInf = NInf"
| "uminus_flt NInf = PInf"
| "uminus_flt NaN = NaN"

fun plus_flt :: "flt \<Rightarrow> flt \<Rightarrow> flt" where
  "plus_flt (Fin a) (Fin b) = rnd (a + b)"
| "plus_flt NaN _ = NaN"
| "plus_flt _ NaN = NaN"
| "plus_flt PInf NInf = NaN"
| "plus_flt NInf PInf = NaN"
| "plus_flt PInf _ = PInf"
| "plus_flt _ PInf = PInf"
| "plus_flt NInf _ = NInf"
| "plus_flt _ NInf = NInf"

definition minus_flt :: "flt \<Rightarrow> flt \<Rightarrow> flt" where
  "minus_flt a b = a + (- b)"

fun times_flt :: "flt \<Rightarrow> flt \<Rightarrow> flt" where
  "times_flt (Fin a) (Fin b) = rnd (a * b)"
| "times_flt NaN _ = NaN"
| "times_flt _ NaN = NaN"
| "times_flt (Fin a) PInf = inf_of_sign a"
| "times_flt (Fin a) NInf = inf_of_sign (- a)"
| "times_flt PInf (Fin b) = inf_of_sign b"
| "times_flt NInf (Fin b) = inf_of_sign (- b)"
| "times_flt PInf PInf = PInf"
| "times_flt NInf NInf = PInf"
| "times_flt PInf NInf = NInf"
| "times_flt NInf PInf = NInf"

text \<open>
  Division. The divisor 0 is taken as \<open>+0\<close>: a nonzero number over it is the infinity of
  the number's sign, \<open>0 / 0\<close> and \<open>inf / inf\<close> are NaN.
\<close>

fun divide_flt :: "flt \<Rightarrow> flt \<Rightarrow> flt" where
  "divide_flt (Fin a) (Fin b) = (if b = 0 then inf_of_sign a else rnd (a / b))"
| "divide_flt NaN _ = NaN"
| "divide_flt _ NaN = NaN"
| "divide_flt (Fin a) PInf = Fin 0"
| "divide_flt (Fin a) NInf = Fin 0"
| "divide_flt PInf (Fin b) = (if 0 \<le> b then PInf else NInf)"
| "divide_flt NInf (Fin b) = (if 0 \<le> b then NInf else PInf)"
| "divide_flt PInf PInf = NaN"
| "divide_flt PInf NInf = NaN"
| "divide_flt NInf PInf = NaN"
| "divide_flt NInf NInf = NaN"

definition inverse_flt :: "flt \<Rightarrow> flt" where
  "inverse_flt a = divide 1 a"

text \<open>Comparisons: false as soon as one side is a NaN.\<close>

fun less_flt :: "flt \<Rightarrow> flt \<Rightarrow> bool" where
  "less_flt (Fin a) (Fin b) = (a < b)"
| "less_flt NaN _ = False"
| "less_flt _ NaN = False"
| "less_flt PInf _ = False"
| "less_flt _ PInf = True"
| "less_flt _ NInf = False"
| "less_flt NInf _ = True"

fun less_eq_flt :: "flt \<Rightarrow> flt \<Rightarrow> bool" where
  "less_eq_flt (Fin a) (Fin b) = (a \<le> b)"
| "less_eq_flt NaN _ = False"
| "less_eq_flt _ NaN = False"
| "less_eq_flt _ PInf = True"
| "less_eq_flt NInf _ = True"
| "less_eq_flt PInf _ = False"
| "less_eq_flt _ NInf = False"

instance ..

end

text \<open>
  \<^verbatim>\<open>std::complex\<close>: a real and an imaginary part. The sum is taken part by part, the
  product \<open>cmul\<close> is \<open>(a + bi)(c + di) = (ac - bd) + (ad + bc)i\<close> with each operation in
  the arithmetic of the parts, \<^verbatim>\<open>std::conj\<close> negates the imaginary part, and the product with
  a scalar (\<^verbatim>\<open>complex *= float\<close>) multiplies both parts. (For operands that are infinite
  or NaN the library's product takes further steps, which are not modelled.)
\<close>

datatype 'r cplx = Cplx (re: 'r) (im: 'r)

instantiation cplx :: (zero) zero
begin

definition zero_cplx :: "'a cplx" where
  "zero_cplx = Cplx 0 0"

instance ..

end

instantiation cplx :: (plus) plus
begin

definition plus_cplx :: "'a cplx \<Rightarrow> 'a cplx \<Rightarrow> 'a cplx" where
  "plus_cplx x y = Cplx (re x + re y) (im x + im y)"

instance ..

end

definition cmul :: "'r::{plus, minus, times} cplx \<Rightarrow> 'r cplx \<Rightarrow> 'r cplx" where
  "cmul x y = Cplx (re x * re y - im x * im y) (re x * im y + im x * re y)"

definition std_conj :: "'r::uminus cplx \<Rightarrow> 'r cplx" where
  "std_conj z = Cplx (re z) (- im z)"

definition scale :: "'r::times cplx \<Rightarrow> 'r \<Rightarrow> 'r cplx" where
  "scale z w = Cplx (re z * w) (im z * w)"

text \<open>\<^verbatim>\<open>std::max(a, b)\<close> is \<^verbatim>\<open>(a < b) ? b : a\<close>.\<close>

definition std_max :: "'r::ord \<Rightarrow> 'r \<Rightarrow> 'r" where
  "std_max a b = (if a < b then b else a)"

text \<open>An exact complex number, as the number of \<^typ>\<open>complex\<close> that it is.\<close>

definition to_complex :: "real cplx \<Rightarrow> complex" where
  "to_complex z = Complex (re z) (im z)"

section \<open>The engine: configuration and buffers\<close>

text \<open>
  A call of a LAPACKE routine, with its scalar arguments in the order of the routine's
  signature (the arrays are left out):
  \<^verbatim>\<open>chptrd(layout, uplo, n)\<close>, \<^verbatim>\<open>sstebz(range, order, n, vl, vu, il, iu, abstol)\<close>,
  \<^verbatim>\<open>cstein(layout, n, m, ldz)\<close> and \<^verbatim>\<open>cupmtr(layout, side, uplo, trans, m, n, ldc)\<close>.
\<close>

datatype 'r lapack_call =
  Call_chptrd int char int
| Call_sstebz char char int 'r 'r int int 'r
| Call_cstein int int int int
| Call_cupmtr int char char char int int int

fun is_search :: "'r lapack_call \<Rightarrow> bool" where
  "is_search (Call_sstebz _ _ _ _ _ _ _ _) = True"
| "is_search (Call_chptrd _ _ _) = False"
| "is_search (Call_cstein _ _ _ _) = False"
| "is_search (Call_cupmtr _ _ _ _ _ _ _) = False"

text \<open>
  The class \<^verbatim>\<open>KLT\<close> of \<^verbatim>\<open>klt.hh\<close>: the configuration (C \<^verbatim>\<open>int\<close>s, read as \<^typ>\<open>int\<close>; the
  methods compute on them only indices inside the buffers, and the constructor's
  arithmetic on them is modelled with its overflow) and the buffers, each a list of the
  cells of its allocation. The fields \<open>window\<close> and \<open>win_buf\<close> exist only when
  \<^verbatim>\<open>KLT_SUPPORT_WIN\<close> is set and \<open>eval_normalized\<close> only when \<^verbatim>\<open>KLT_SUPPORT_EVALN\<close> is; the
  model keeps them in every build and reads them only under the build's flag.

  The last field is not a member of the class: \<open>lapack_log\<close> is the history of the calls
  made to LAPACKE, the latest last. No method reads it; it is there to state which calls
  a method makes.
\<close>

record 'r klt =
  in_len :: int
  window :: int
  eval_normalized :: int
  acm_order :: int
  num_eig :: int
  in_buf :: "'r cplx list"
  win_buf :: "'r list"
  ac_buf :: "'r cplx list"
  eval_buf :: "'r list"
  kltc_buf :: "'r cplx list"
  kltb_buf :: "'r cplx list"
  d_buf :: "'r list"
  e_buf :: "'r list"
  tau_buf :: "'r cplx list"
  ib_buf :: "int list"
  is_buf :: "int list"
  if_buf :: "int list"
  lapack_log :: "'r lapack_call list"

text \<open>The compile-time switches of \<^verbatim>\<open>klt.hh\<close>; both are 0 as shipped.\<close>

record build =
  KLT_SUPPORT_WIN :: bool
  KLT_SUPPORT_EVALN :: bool

definition shipped :: build where
  "shipped = \<lparr>KLT_SUPPORT_WIN = False, KLT_SUPPORT_EVALN = False\<rparr>"

text \<open>
  The sizes the constructor allocates, in cells. A C++ access outside an allocation is
  undefined; the statements below are made for engines whose buffers have these sizes and
  whose configuration is the one the caller is trusted to pass
  (\<open>2 \<le> acm_order \<le> in_len\<close>, \<open>1 \<le> num_eig \<le> acm_order\<close>), so that every index the code
  computes is inside its buffer.
\<close>

definition ac_size :: "int \<Rightarrow> nat" where
  "ac_size n = nat (((n + 1) * n) div 2)"

definition config_ok :: "'r klt \<Rightarrow> bool" where
  "config_ok s \<longleftrightarrow>
     2 \<le> acm_order s \<and> acm_order s \<le> in_len s \<and> 1 \<le> num_eig s \<and> num_eig s \<le> acm_order s"

definition buffers_ok :: "'r klt \<Rightarrow> bool" where
  "buffers_ok s \<longleftrightarrow>
     length (in_buf s) = nat (in_len s) \<and>
     length (win_buf s) = nat (in_len s) \<and>
     length (ac_buf s) = ac_size (acm_order s) \<and>
     length (eval_buf s) = nat (acm_order s) \<and>
     length (kltc_buf s) = nat (num_eig s) \<and>
     length (kltb_buf s) = nat (acm_order s * num_eig s) \<and>
     length (d_buf s) = nat (acm_order s) \<and>
     length (e_buf s) = nat (acm_order s - 1) \<and>
     length (tau_buf s) = nat (acm_order s - 1) \<and>
     length (ib_buf s) = nat (acm_order s) \<and>
     length (is_buf s) = nat (acm_order s) \<and>
     length (if_buf s) = nat (num_eig s)"

definition klt_ok :: "'r klt \<Rightarrow> bool" where
  "klt_ok s \<longleftrightarrow> config_ok s \<and> buffers_ok s"

section \<open>The autocorrelation matrix\<close>

text \<open>
  \<^verbatim>\<open>KLT::acorr_matrix\<close>, first loop nest: for each lag \<open>aidx\<close> the cell \<open>ac_buf[aidx]\<close> is
  cleared and then accumulates \<open>in_buf[w2idx + aidx] * conj(in_buf[w2idx])\<close> for
  \<open>w2idx < in_len - aidx\<close>, in place.
\<close>

definition acorr_accum ::
  "'r::{plus, minus, uminus, times} cplx list \<Rightarrow> nat \<Rightarrow> nat \<Rightarrow> 'r cplx list \<Rightarrow> 'r cplx list" where
  "acorr_accum inb aidx w2idx ac =
     (let w1idx = w2idx + aidx
      in ac[aidx := ac ! aidx + cmul (inb ! w1idx) (std_conj (inb ! w2idx))])"

definition acorr_lag ::
  "int \<Rightarrow> 'r::{zero, plus, minus, uminus, times} cplx list \<Rightarrow> nat \<Rightarrow> 'r cplx list
     \<Rightarrow> 'r cplx list" where
  "acorr_lag inlen inb aidx ac =
     fold (acorr_accum inb aidx) [0..<nat (inlen - int aidx)] (ac[aidx := 0])"

definition acorr_lags ::
  "int \<Rightarrow> int \<Rightarrow> 'r::{zero, plus, minus, uminus, times} cplx list \<Rightarrow> 'r cplx list
     \<Rightarrow> 'r cplx list" where
  "acorr_lags n inlen inb ac = fold (acorr_lag inlen inb) [0..<nat n] ac"

text \<open>
  Second loop nest: the running output index \<open>aoidx\<close> starts at \<open>acm_order\<close>; for
  \<open>col_len = acm_order - 1\<close> down to 1 the first \<open>col_len\<close> cells are copied to
  \<open>ac_buf[aoidx++]\<close>.
\<close>

definition toeplitz_copy :: "nat \<Rightarrow> nat \<times> 'a list \<Rightarrow> nat \<times> 'a list" where
  "toeplitz_copy aiidx = (\<lambda>(aoidx, ac). (aoidx + 1, ac[aoidx := ac ! aiidx]))"

definition toeplitz_col :: "nat \<Rightarrow> nat \<times> 'a list \<Rightarrow> nat \<times> 'a list" where
  "toeplitz_col col_len st = fold toeplitz_copy [0..<col_len] st"

definition toeplitz :: "int \<Rightarrow> 'a list \<Rightarrow> 'a list" where
  "toeplitz n ac = snd (fold toeplitz_col (rev [1..<nat n]) (nat n, ac))"

definition acorr_matrix :: "'r::{zero, plus, minus, uminus, times} klt \<Rightarrow> 'r klt" where
  "acorr_matrix s =
     s\<lparr>ac_buf := toeplitz (acm_order s)
                  (acorr_lags (acm_order s) (in_len s) (in_buf s) (ac_buf s))\<rparr>"

text \<open>
  The spec's words for the autocorrelation estimate at lag \<open>a\<close>: the sum over
  \<open>t\<close> in \<open>[0, inputLength - a)\<close> of \<open>input[t + a] * conj(input[t])\<close>. In the engine's
  arithmetic a sum is taken term by term from 0, in the order of \<open>t\<close>.
\<close>

definition lag_sum ::
  "int \<Rightarrow> 'r::{zero, plus, minus, uminus, times} cplx list \<Rightarrow> nat \<Rightarrow> 'r cplx" where
  "lag_sum inlen inb a =
     foldl (\<lambda>acc t. acc + cmul (inb ! (t + a)) (std_conj (inb ! t))) 0 [0..<nat (inlen - int a)]"

text \<open>The same sum for exact numbers, as a sum of complex numbers.\<close>

definition exact_lag_sum :: "int \<Rightarrow> real cplx list \<Rightarrow> nat \<Rightarrow> complex" where
  "exact_lag_sum inlen inb a =
     (\<Sum>t<nat (inlen - int a). to_complex (inb ! (t + a)) * cnj (to_complex (inb ! t)))"

text \<open>
  Packed storage of the lower triangle, column by column, as LAPACK defines it for
  \<^verbatim>\<open>uplo = 'L'\<close>: counting rows and columns from 0, the cell of row \<open>r\<close> and column \<open>c\<close>
  (\<open>c \<le> r < n\<close>) is \<open>r + c * (2 * n - c - 1) / 2\<close>. Column \<open>c\<close> starts at \<open>col_start n c\<close>
  and holds the \<open>n - c\<close> rows \<open>c, ..., n - 1\<close>.
\<close>

definition packed_index :: "nat \<Rightarrow> nat \<Rightarrow> nat \<Rightarrow> nat" where
  "packed_index n r c = r + (c * (2 * n - c - 1)) div 2"

fun col_start :: "nat \<Rightarrow> nat \<Rightarrow> nat" where
  "col_start n 0 = 0"
| "col_start n (Suc c) = col_start n c + (n - c)"

section \<open>The eigensolver\<close>

text \<open>
  The four LAPACKE routines are not part of this repository: the engine is verified for
  every implementation of them. A routine is a function of the arguments the code
  passes; it returns its status \<open>info\<close>, its scalar results and, for each output array,
  the value of every cell (a function of the cell's index). The code's buffer receives
  the cells of the array's documented dimension, and keeps the others. What a routine
  leaves in its output arrays when it reports a failure is, likewise, what the function
  returns; the standard output of the debug builds is not modelled.
\<close>

definition store :: "nat \<Rightarrow> (nat \<Rightarrow> 'a) \<Rightarrow> 'a list \<Rightarrow> 'a list" where
  "store k f buf = map (\<lambda>i. if i < k then f i else buf ! i) [0..<length buf]"

text \<open>
  \<^verbatim>\<open>LAPACKE_chptrd(layout, uplo, n, ap, d, e, tau)\<close>: \<open>ap\<close> is overwritten
  (\<open>n * (n + 1) / 2\<close> cells); \<open>d\<close> (\<open>n\<close> cells), \<open>e\<close> and \<open>tau\<close> (\<open>n - 1\<close> cells) are outputs.
  Result: \<open>(info, ap, d, e, tau)\<close>.

  \<^verbatim>\<open>LAPACKE_sstebz(range, order, n, vl, vu, il, iu, abstol, d, e, &m, &nsplit, w, iblock, isplit)\<close>:
  \<open>w\<close>, \<open>iblock\<close> and \<open>isplit\<close> are outputs of \<open>n\<close> cells (the eigenvalues are the first \<open>m\<close>
  cells of \<open>w\<close>, the rest is the routine's workspace). Result:
  \<open>(info, m, nsplit, w, iblock, isplit)\<close>.

  \<^verbatim>\<open>LAPACKE_cstein(layout, n, d, e, m, w, iblock, isplit, z, ldz, ifail)\<close>: \<open>z\<close> is an
  output of \<open>ldz * m\<close> cells (\<open>m\<close> columns), \<open>ifail\<close> of \<open>m\<close> cells. Result: \<open>(info, z, ifail)\<close>.

  \<^verbatim>\<open>LAPACKE_cupmtr(layout, side, uplo, trans, m, n, ap, tau, c, ldc)\<close>: \<open>c\<close>, of \<open>ldc * n\<close>
  cells (\<open>n\<close> columns), is read and overwritten; \<open>ap\<close> is \<^verbatim>\<open>const\<close>. Result: \<open>(info, c)\<close>.
\<close>

type_synonym 'r chptrd_result =
  "int \<times> (nat \<Rightarrow> 'r cplx) \<times> (nat \<Rightarrow> 'r) \<times> (nat \<Rightarrow> 'r) \<times> (nat \<Rightarrow> 'r cplx)"

type_synonym 'r sstebz_result =
  "int \<times> int \<times> int \<times> (nat \<Rightarrow> 'r) \<times> (nat \<Rightarrow> int) \<times> (nat \<Rightarrow> int)"

type_synonym 'r cstein_result = "int \<times> (nat \<Rightarrow> 'r cplx) \<times> (nat \<Rightarrow> int)"

type_synonym 'r cupmtr_result = "int \<times> (nat \<Rightarrow> 'r cplx)"

record 'r lapack =
  LAPACKE_chptrd :: "int \<Rightarrow> char \<Rightarrow> int \<Rightarrow> 'r cplx list \<Rightarrow> 'r chptrd_result"
  LAPACKE_sstebz ::
    "char \<Rightarrow> char \<Rightarrow> int \<Rightarrow> 'r \<Rightarrow> 'r \<Rightarrow> int \<Rightarrow> int \<Rightarrow> 'r \<Rightarrow> 'r list \<Rightarrow> 'r list
       \<Rightarrow> 'r sstebz_result"
  LAPACKE_cstein ::
    "int \<Rightarrow> int \<Rightarrow> 'r list \<Rightarrow> 'r list \<Rightarrow> int \<Rightarrow> 'r list \<Rightarrow> int list \<Rightarrow> int list \<Rightarrow> int
       \<Rightarrow> 'r cstein_result"
  LAPACKE_cupmtr ::
    "int \<Rightarrow> char \<Rightarrow> char \<Rightarrow> char \<Rightarrow> int \<Rightarrow> int \<Rightarrow> 'r cplx list \<Rightarrow> 'r cplx list \<Rightarrow> 'r cplx list
       \<Rightarrow> int \<Rightarrow> 'r cupmtr_result"

definition LAPACK_COL_MAJOR :: int where
  "LAPACK_COL_MAJOR = 102"

text \<open>
  What \<^verbatim>\<open>transform\<close> and \<^verbatim>\<open>eigendecomp\<close> throw: a \<^verbatim>\<open>std::runtime_error\<close> whose message
  names the routine that failed and its \<open>info\<close>. The constructor's error names the buffer
  and the size printed in the message.
\<close>

datatype routine = Chptrd | Sstebz | Cstein | Cupmtr

datatype error = Lapack_failed routine int | Alloc_failed string int

text \<open>
  A call either returns or throws; the engine's buffers are members of the object, so
  the caller sees them as the call left them in both cases.
\<close>

datatype 'r outcome = Returned "'r klt" | Thrown error "'r klt"

fun final :: "'r outcome \<Rightarrow> 'r klt" where
  "final (Returned s) = s"
| "final (Thrown err s) = s"

fun thrown :: "'r outcome \<Rightarrow> error option" where
  "thrown (Returned s) = None"
| "thrown (Thrown err s) = Some err"

text \<open>
  The two \<^verbatim>\<open>memset\<close>s of every failure branch of \<^verbatim>\<open>eigendecomp\<close>: \<open>num_eig\<close> floats of
  \<open>eval_buf\<close> and \<open>num_eig * acm_order\<close> cells of \<open>kltb_buf\<close> (all-zero bytes are \<open>0.0f\<close>).
\<close>

definition zero_outputs :: "'r::zero klt \<Rightarrow> 'r klt" where
  "zero_outputs s =
     s\<lparr>eval_buf := store (nat (num_eig s)) (\<lambda>i. 0) (eval_buf s),
       kltb_buf := store (nat (num_eig s * acm_order s)) (\<lambda>i. 0) (kltb_buf s)\<rparr>"

text \<open>
  The four calls, each with the arguments \<^verbatim>\<open>eigendecomp\<close> passes; each call is entered
  in the history.
\<close>

definition call_chptrd :: "'r lapack \<Rightarrow> 'r klt \<Rightarrow> int \<times> 'r klt" where
  "call_chptrd L s =
     (case LAPACKE_chptrd L LAPACK_COL_MAJOR CHR ''L'' (acm_order s) (ac_buf s) of
        (info, ap, d, e, tau) \<Rightarrow>
          (info,
           s\<lparr>ac_buf := store (ac_size (acm_order s)) ap (ac_buf s),
             d_buf := store (nat (acm_order s)) d (d_buf s),
             e_buf := store (nat (acm_order s - 1)) e (e_buf s),
             tau_buf := store (nat (acm_order s - 1)) tau (tau_buf s),
             lapack_log := lapack_log s @ [Call_chptrd LAPACK_COL_MAJOR CHR ''L'' (acm_order s)]\<rparr>))"

definition il :: "'r klt \<Rightarrow> int" where
  "il s = acm_order s - num_eig s + 1"

definition iu :: "'r klt \<Rightarrow> int" where
  "iu s = acm_order s"

definition call_sstebz :: "'r::zero lapack \<Rightarrow> 'r klt \<Rightarrow> int \<times> int \<times> int \<times> 'r klt" where
  "call_sstebz L s =
     (case LAPACKE_sstebz L CHR ''I'' CHR ''B'' (acm_order s) 0 0 (il s) (iu s) 0
             (d_buf s) (e_buf s) of
        (info, num_eig_found, nsplit, w, iblock, isplit) \<Rightarrow>
          (info, num_eig_found, nsplit,
           s\<lparr>eval_buf := store (nat (acm_order s)) w (eval_buf s),
             ib_buf := store (nat (acm_order s)) iblock (ib_buf s),
             is_buf := store (nat (acm_order s)) isplit (is_buf s),
             lapack_log := lapack_log s @
               [Call_sstebz CHR ''I'' CHR ''B'' (acm_order s) 0 0 (il s) (iu s) 0]\<rparr>))"

definition call_cstein :: "'r lapack \<Rightarrow> int \<Rightarrow> 'r klt \<Rightarrow> int \<times> 'r klt" where
  "call_cstein L num_eig_found s =
     (case LAPACKE_cstein L LAPACK_COL_MAJOR (acm_order s) (d_buf s) (e_buf s)
             num_eig_found (eval_buf s) (ib_buf s) (is_buf s) (acm_order s) of
        (info, z, ifail) \<Rightarrow>
          (info,
           s\<lparr>kltb_buf := store (nat (acm_order s * num_eig_found)) z (kltb_buf s),
             if_buf := store (nat num_eig_found) ifail (if_buf s),
             lapack_log := lapack_log s @
               [Call_cstein LAPACK_COL_MAJOR (acm_order s) num_eig_found (acm_order s)]\<rparr>))"

definition call_cupmtr :: "'r lapack \<Rightarrow> int \<Rightarrow> 'r klt \<Rightarrow> int \<times> 'r klt" where
  "call_cupmtr L num_eig_found s =
     (case LAPACKE_cupmtr L LAPACK_COL_MAJOR CHR ''L'' CHR ''L'' CHR ''N'' (acm_order s)
             num_eig_found (ac_buf s) (tau_buf s)
             (take (nat (acm_order s * num_eig_found)) (kltb_buf s)) (acm_order s) of
        (info, c) \<Rightarrow>
          (info,
           s\<lparr>kltb_buf := store (nat (acm_order s * num_eig_found)) c (kltb_buf s),
             lapack_log := lapack_log s @
               [Call_cupmtr LAPACK_COL_MAJOR CHR ''L'' CHR ''L'' CHR ''N'' (acm_order s)
                  num_eig_found (acm_order s)]\<rparr>))"

text \<open>
  \<^verbatim>\<open>KLT::eigendecomp\<close>. The warnings of the \<^verbatim>\<open>KLT_DEBUG_FINE\<close> build about \<open>nsplit\<close> and
  \<open>num_eig_found\<close> go to \<^verbatim>\<open>std::cout\<close> and change nothing else; they are not modelled.
\<close>

definition eigendecomp :: "'r::zero lapack \<Rightarrow> 'r klt \<Rightarrow> 'r outcome" where
  "eigendecomp L s =
     (case call_chptrd L s of (info, s1) \<Rightarrow>
        if info \<noteq> 0 then Thrown (Lapack_failed Chptrd info) (zero_outputs s1)
        else
          (case call_sstebz L s1 of (info, num_eig_found, nsplit, s2) \<Rightarrow>
             if info \<noteq> 0 then Thrown (Lapack_failed Sstebz info) (zero_outputs s2)
             else
               (case call_cstein L num_eig_found s2 of (info, s3) \<Rightarrow>
                  if info \<noteq> 0 then Thrown (Lapack_failed Cstein info) (zero_outputs s3)
                  else
                    (case call_cupmtr L num_eig_found s3 of (info, s4) \<Rightarrow>
                       if info \<noteq> 0 then Thrown (Lapack_failed Cupmtr info) (zero_outputs s4)
                       else Returned s4))))"

section \<open>The transform\<close>

text \<open>\<^verbatim>\<open>KLT::apply_window\<close> (compiled under \<^verbatim>\<open>KLT_SUPPORT_WIN\<close>): \<open>in_buf[widx] *= win_buf[widx]\<close>.\<close>

definition apply_window :: "'r::times klt \<Rightarrow> 'r klt" where
  "apply_window s =
     s\<lparr>in_buf := fold (\<lambda>widx inb. inb[widx := scale (inb ! widx) (win_buf s ! widx)])
                   [0..<nat (in_len s)] (in_buf s)\<rparr>"

text \<open>
  The normalization of \<^verbatim>\<open>transform\<close> (compiled under \<^verbatim>\<open>KLT_SUPPORT_EVALN\<close>): the running
  maximum starts at \<open>0.0f\<close>, then every retained eigenvalue is multiplied by
  \<open>1.0f / max_eval\<close>.
\<close>

definition max_eval :: "'r::{zero, ord} klt \<Rightarrow> 'r" where
  "max_eval s = fold (\<lambda>eidx m. std_max (eval_buf s ! eidx) m) [0..<nat (num_eig s)] 0"

definition normalize_evals :: "'r::{zero, one, times, inverse, ord} klt \<Rightarrow> 'r klt" where
  "normalize_evals s =
     (let inv_max_eval = 1 / max_eval s
      in s\<lparr>eval_buf := fold (\<lambda>eidx ev. ev[eidx := ev ! eidx * inv_max_eval])
                           [0..<nat (num_eig s)] (eval_buf s)\<rparr>)"

text \<open>
  The coefficients: \<open>kltc_buf[cidx]\<close> is cleared, then accumulates
  \<open>in_buf[tidx] * conj(kltb_buf[cidx * acm_order + tidx])\<close> for \<open>tidx < acm_order\<close>.
\<close>

definition coeff_accum ::
  "int \<Rightarrow> 'r::{plus, minus, uminus, times} cplx list \<Rightarrow> 'r cplx list \<Rightarrow> nat \<Rightarrow> nat
     \<Rightarrow> 'r cplx list \<Rightarrow> 'r cplx list" where
  "coeff_accum n inb kb cidx tidx kc =
     kc[cidx := kc ! cidx + cmul (inb ! tidx) (std_conj (kb ! (cidx * nat n + tidx)))]"

definition coeff_column ::
  "int \<Rightarrow> 'r::{zero, plus, minus, uminus, times} cplx list \<Rightarrow> 'r cplx list \<Rightarrow> nat
     \<Rightarrow> 'r cplx list \<Rightarrow> 'r cplx list" where
  "coeff_column n inb kb cidx kc = fold (coeff_accum n inb kb cidx) [0..<nat n] (kc[cidx := 0])"

definition compute_coeffs :: "'r::{zero, plus, minus, uminus, times} klt \<Rightarrow> 'r klt" where
  "compute_coeffs s =
     s\<lparr>kltc_buf := fold (coeff_column (acm_order s) (in_buf s) (kltb_buf s))
                     [0..<nat (num_eig s)] (kltc_buf s)\<rparr>"

text \<open>The weighting: \<open>kltb_buf[cidx * acm_order + tidx] *= kltc_buf[cidx]\<close>.\<close>

definition weight_cell ::
  "int \<Rightarrow> 'r::{plus, minus, times} cplx list \<Rightarrow> nat \<Rightarrow> nat \<Rightarrow> 'r cplx list \<Rightarrow> 'r cplx list" where
  "weight_cell n kc cidx tidx kb =
     kb[cidx * nat n + tidx := cmul (kb ! (cidx * nat n + tidx)) (kc ! cidx)]"

definition weight_column ::
  "int \<Rightarrow> 'r::{plus, minus, times} cplx list \<Rightarrow> nat \<Rightarrow> 'r cplx list \<Rightarrow> 'r cplx list" where
  "weight_column n kc cidx kb = fold (weight_cell n kc cidx) [0..<nat n] kb"

definition apply_coeffs :: "'r::{plus, minus, times} klt \<Rightarrow> 'r klt" where
  "apply_coeffs s =
     s\<lparr>kltb_buf := fold (weight_column (acm_order s) (kltc_buf s))
                     [0..<nat (num_eig s)] (kltb_buf s)\<rparr>"

text \<open>
  \<^verbatim>\<open>KLT::transform\<close>. An exception of \<^verbatim>\<open>eigendecomp\<close> leaves \<^verbatim>\<open>transform\<close> at once: the
  normalization, the coefficients and the weighting are skipped.
\<close>

definition windowed :: "build \<Rightarrow> 'r::times klt \<Rightarrow> 'r klt" where
  "windowed B s = (if KLT_SUPPORT_WIN B \<and> window s \<noteq> 0 then apply_window s else s)"

definition normalized :: "build \<Rightarrow> 'r::{zero, one, times, inverse, ord} klt \<Rightarrow> 'r klt" where
  "normalized B s =
     (if KLT_SUPPORT_EVALN B \<and> eval_normalized s \<noteq> 0 then normalize_evals s else s)"

definition transform ::
  "build \<Rightarrow> 'r::{zero, one, plus, minus, uminus, times, inverse, ord} lapack \<Rightarrow> 'r klt
     \<Rightarrow> 'r outcome" where
  "transform B L s =
     (case eigendecomp L (acorr_matrix (windowed B s)) of
        Thrown err s' \<Rightarrow> Thrown err s'
      | Returned s' \<Rightarrow> Returned (apply_coeffs (compute_coeffs (normalized B s'))))"

text \<open>
  The spec's words for coefficient \<open>i\<close>: the sum over \<open>t\<close> in \<open>[0, acmOrder)\<close> of
  \<open>input[t] * conj(eigenvector_i[t])\<close>, the eigenvector being column \<open>i\<close> of the basis
  buffer \<open>kb\<close>; and the same sum for exact numbers, as a sum of complex numbers.
\<close>

definition projection ::
  "int \<Rightarrow> 'r::{zero, plus, minus, uminus, times} cplx list \<Rightarrow> 'r cplx list \<Rightarrow> nat \<Rightarrow> 'r cplx" where
  "projection n inb kb i =
     foldl (\<lambda>acc t. acc + cmul (inb ! t) (std_conj (kb ! (i * nat n + t)))) 0 [0..<nat n]"


text \<open>
  What the caller reads after a call: \<open>num_eig\<close> eigenvalues, the coefficients and the
  basis.
\<close>

definition outputs :: "'r klt \<Rightarrow> 'r list \<times> 'r cplx list \<times> 'r cplx list" where
  "outputs s = (take (nat (num_eig s)) (eval_buf s), kltc_buf s, kltb_buf s)"

text \<open>
  Two engines that were constructed alike and hold the same window: the configuration,
  the analysis window and the input buffer are equal. Nothing is said of the other
  buffers, which hold what earlier calls left.
\<close>

definition same_setup :: "'r klt \<Rightarrow> 'r klt \<Rightarrow> bool" where
  "same_setup a b \<longleftrightarrow>
     in_len a = in_len b \<and> window a = window b \<and> eval_normalized a = eval_normalized b \<and>
     acm_order a = acm_order b \<and> num_eig a = num_eig b \<and>
     win_buf a = win_buf b \<and> in_buf a = in_buf b"

text \<open>
  The state in which \<^verbatim>\<open>transform\<close> calls the eigenvalue search (the reduction has
  run), the result of the search, and the value the search leaves in the local
  \<open>num_eig_found\<close>.
\<close>

definition reduced :: "build \<Rightarrow> 'r::{zero, plus, minus, uminus, times} lapack \<Rightarrow> 'r klt \<Rightarrow> 'r klt" where
  "reduced B L s = snd (call_chptrd L (acorr_matrix (windowed B s)))"

definition num_eig_found ::
  "build \<Rightarrow> 'r::{zero, plus, minus, uminus, times} lapack \<Rightarrow> 'r klt \<Rightarrow> int" where
  "num_eig_found B L s = fst (snd (call_sstebz L (reduced B L s)))"

section \<open>Construction and destruction\<close>

text \<open>
  The heap is the list of the live allocations, each an address and a size in bytes.
  \<^verbatim>\<open>posix_memalign\<close> is a parameter: from the live allocations, the alignment and the size
  it gives an address, or fails (a non-zero return). A pointer member is NULL until its
  allocation succeeds; the members that are not NULL are a list of names and addresses,
  in the order of their allocation.
\<close>

type_synonym heap = "(nat \<times> nat) list"

type_synonym allocator = "heap \<Rightarrow> nat \<Rightarrow> nat \<Rightarrow> nat option"

type_synonym pointers = "(string \<times> nat) list"

definition ALIGN :: nat where
  "ALIGN = 128"

definition posix_memalign :: "allocator \<Rightarrow> heap \<Rightarrow> nat \<Rightarrow> nat \<Rightarrow> (nat \<times> heap) option" where
  "posix_memalign A h alignment bytes =
     (case A h alignment bytes of
        None \<Rightarrow> None
      | Some a \<Rightarrow> Some (a, h @ [(a, bytes)]))"

definition free :: "nat \<Rightarrow> heap \<Rightarrow> heap" where
  "free a h = filter (\<lambda>b. fst b \<noteq> a) h"

text \<open>
  The constructor computes its sizes in two types. An \<^verbatim>\<open>int\<close> has 32 bits, and an
  \<^verbatim>\<open>int\<close> operation whose result is outside the type is undefined: the model gives no
  result for a constructor that reaches one. A \<^verbatim>\<open>size_t\<close> has 64 bits; the conversion of
  an \<^verbatim>\<open>int\<close> to it and its product with \<^verbatim>\<open>sizeof\<close> are taken modulo \<open>2\<^sup>6\<^sup>4\<close>.
\<close>

definition in_int :: "int \<Rightarrow> bool" where
  "in_int x \<longleftrightarrow> - 2147483648 \<le> x \<and> x \<le> 2147483647"

definition to_size_t :: "int \<Rightarrow> nat" where
  "to_size_t x = nat (x mod 18446744073709551616)"

definition size_t_mul :: "nat \<Rightarrow> nat \<Rightarrow> nat" where
  "size_t_mul a b = (a * b) mod 18446744073709551616"

text \<open>
  The allocation statements of the constructor, in their order: the buffer and, unless
  the \<^verbatim>\<open>int\<close> arithmetic of the statement overflows, the size the error message prints
  and the bytes requested (\<^verbatim>\<open>sizeof(std::complex<float>)\<close> is 8, \<^verbatim>\<open>sizeof(float)\<close> and
  \<^verbatim>\<open>sizeof(int)\<close> are 4). The message prints the \<^verbatim>\<open>int\<close> parameter for the buffers sized by
  one, and the \<^verbatim>\<open>size_t\<close> local for \<open>ac_buf\<close>, \<open>kltb_buf\<close>, \<open>e_buf\<close> and \<open>tau_buf\<close>. The local
  \<open>ac_size\<close> is \<^verbatim>\<open>((acm_order + 1) * acm_order) / 2\<close>, computed in \<^verbatim>\<open>int\<close> (the product of
  two consecutive numbers is not negative, so that C's division is \<open>div\<close>); \<open>kltb_size\<close>
  is \<^verbatim>\<open>acm_order * num_eig\<close> and \<open>e_size\<close>, \<open>tau_size\<close> are \<^verbatim>\<open>acm_order - 1\<close>, computed in
  \<^verbatim>\<open>int\<close> and converted.
\<close>

definition sized_by_int :: "int \<Rightarrow> nat \<Rightarrow> (int \<times> nat) option" where
  "sized_by_int x cell = Some (x, size_t_mul (to_size_t x) cell)"

definition sized_by_size_t :: "bool \<Rightarrow> int \<Rightarrow> nat \<Rightarrow> (int \<times> nat) option" where
  "sized_by_size_t defined x cell =
     (if defined then Some (int (to_size_t x), size_t_mul (to_size_t x) cell) else None)"

definition allocations ::
  "build \<Rightarrow> int \<Rightarrow> int \<Rightarrow> int \<Rightarrow> (string \<times> (int \<times> nat) option) list" where
  "allocations B inlen n k =
     [(''in_buf'', sized_by_int inlen 8)] @
     (if KLT_SUPPORT_WIN B then [(''win_buf'', sized_by_int inlen 4)] else []) @
     [(''ac_buf'',
         sized_by_size_t (in_int (n + 1) \<and> in_int ((n + 1) * n)) (((n + 1) * n) div 2) 8),
      (''eval_buf'', sized_by_int n 4),
      (''kltc_buf'', sized_by_int k 8),
      (''kltb_buf'', sized_by_size_t (in_int (n * k)) (n * k) 8),
      (''d_buf'', sized_by_int n 4),
      (''e_buf'', sized_by_size_t (in_int (n - 1)) (n - 1) 4),
      (''tau_buf'', sized_by_size_t (in_int (n - 1)) (n - 1) 8),
      (''ib_buf'', sized_by_int n 4),
      (''is_buf'', sized_by_int n 4),
      (''if_buf'', sized_by_int k 4)]"

text \<open>
  Each statement either stores the new address in its member or throws
  \<^verbatim>\<open>std::runtime_error("Failed to allocate <buffer> (size <size>)")\<close>. The constructor has
  no handler and frees nothing; C++ does not run the destructor of an object whose
  constructor throws, so the heap the caller is left with is the heap at the throw.
  The result is \<open>None\<close> when the constructor reaches an undefined operation.
\<close>

fun allocate ::
  "allocator \<Rightarrow> (string \<times> (int \<times> nat) option) list \<Rightarrow> pointers \<Rightarrow> heap
     \<Rightarrow> ((error + pointers) \<times> heap) option"
where
  "allocate A [] ps h = Some (Inr ps, h)"
| "allocate A ((name, None) # rest) ps h = None"
| "allocate A ((name, Some (sz, bytes)) # rest) ps h =
     (case posix_memalign A h ALIGN bytes of
        None \<Rightarrow> Some (Inl (Alloc_failed name sz), h)
      | Some (a, h') \<Rightarrow> allocate A rest (ps @ [(name, a)]) h')"

definition KLT_constructor ::
  "allocator \<Rightarrow> build \<Rightarrow> int \<Rightarrow> int \<Rightarrow> int \<Rightarrow> heap \<Rightarrow> ((error + pointers) \<times> heap) option" where
  "KLT_constructor A B inlen n k h = allocate A (allocations B inlen n k) [] h"

text \<open>\<^verbatim>\<open>KLT::~KLT\<close>: every member that is not NULL is freed.\<close>

definition KLT_destructor :: "pointers \<Rightarrow> heap \<Rightarrow> heap" where
  "KLT_destructor ps h = fold (\<lambda>(name, a) h. free a h) ps h"

section \<open>Examples\<close>

text \<open>The binary32 complex number \<open>a + b\<i>\<close>, for \<open>a\<close> and \<open>b\<close> that the format represents.\<close>

definition cx :: "real \<Rightarrow> real \<Rightarrow> flt cplx" where
  "cx a b = Cplx (Fin a) (Fin b)"

text \<open>
  The number that a binary32 value is (0 for the infinities and NaN, which are no
  numbers), and the exact complex number that a binary32 complex number is.
\<close>

fun number :: "flt \<Rightarrow> real" where
  "number (Fin a) = a"
| "number PInf = 0"
| "number NInf = 0"
| "number NaN = 0"


text \<open>
  A small engine (\<open>in_len = 3\<close>, \<open>acm_order = 3\<close>, \<open>num_eig = 2\<close>) holding the window
  \<open>1, 2, \<i>\<close>, with what earlier calls left in its other buffers.
\<close>

definition engine3 :: "flt klt" where
  "engine3 =
     \<lparr>in_len = 3, window = 0, eval_normalized = 0, acm_order = 3, num_eig = 2,
      in_buf = [cx 1 0, cx 2 0, cx 0 1], win_buf = [Fin 1, Fin 1, Fin 1],
      ac_buf = [cx 9 0, cx 9 0, cx 9 0, cx 9 0, cx 9 0, cx 9 0],
      eval_buf = [Fin 7, Fin 7, Fin 7],
      kltc_buf = [cx 5 0, cx 5 0],
      kltb_buf = [cx 1 0, cx 0 0, cx 0 0, cx 0 0, cx 1 0, cx 0 0],
      d_buf = [Fin 0, Fin 0, Fin 0], e_buf = [Fin 0, Fin 0], tau_buf = [cx 0 0, cx 0 0],
      ib_buf = [0, 0, 0], is_buf = [0, 0, 0], if_buf = [0, 0], lapack_log = []\<rparr>"




text \<open>The engine \<open>engine3\<close> after a different history: another basis is left in \<open>kltb_buf\<close>.\<close>

definition engine3b :: "flt klt" where
  "engine3b = engine3\<lparr>kltb_buf := [cx 1 0, cx 0 0, cx 0 0, cx 0 0, cx 7 0, cx 0 0]\<rparr>"


text \<open>
  An eigensolver for the examples: every routine reports success; the reduction leaves
  \<open>ap\<close> as it is; the search reports \<open>found\<close> eigenvalues in \<open>nsplit\<close> blocks and gives
  cell \<open>i\<close> of \<open>w\<close> the value \<open>ev * (i + 1)\<close>; the inverse iteration gives cell \<open>i\<close> of \<open>z\<close>
  the value \<open>(i + 1) * \<i>\<close>; the back-transformation leaves \<open>c\<close> as it is.
\<close>

definition solver :: "int \<Rightarrow> int \<Rightarrow> real \<Rightarrow> flt lapack" where
  "solver found nsplit ev =
     \<lparr>LAPACKE_chptrd = (\<lambda>layout uplo n ap.
         (0, (\<lambda>i. ap ! i), (\<lambda>i. Fin 1), (\<lambda>i. Fin 0), (\<lambda>i. cx 0 0))),
      LAPACKE_sstebz = (\<lambda>range order n vl vu il iu abstol d e.
         (0, found, nsplit, (\<lambda>i. Fin (ev * of_nat (i + 1))), (\<lambda>i. 1), (\<lambda>i. n))),
      LAPACKE_cstein = (\<lambda>layout n d e m w iblock isplit ldz.
         (0, (\<lambda>i. cx 0 (of_nat (i + 1))), (\<lambda>i. 0))),
      LAPACKE_cupmtr = (\<lambda>layout side uplo trans m n ap tau c ldc. (0, (\<lambda>i. c ! i)))\<rparr>"


text \<open>
  The same eigensolver with a reduction that reports \<open>info = -4\<close>, as LAPACKE does when
  its check of the packed matrix finds a NaN.
\<close>

definition chptrd_fails :: "flt lapack" where
  "chptrd_fails =
     (solver 2 1 1)\<lparr>LAPACKE_chptrd :=
        (\<lambda>layout uplo n ap. (- 4, (\<lambda>i. ap ! i), (\<lambda>i. Fin 0), (\<lambda>i. Fin 0), (\<lambda>i. cx 0 0)))\<rparr>"

text \<open>
  An eigensolver that answers like \<open>solver 2 1 1\<close> when asked for the eigenvalues of
  index 2 to 3, and reports an error for every other range.
\<close>

definition top2_only :: "flt lapack" where
  "top2_only =
     (solver 2 1 1)\<lparr>LAPACKE_sstebz :=
        (\<lambda>range order n vl vu il iu abstol d e.
           if il = 2 \<and> iu = 3
           then LAPACKE_sstebz (solver 2 1 1) range order n vl vu il iu abstol d e
           else (1, 0, 0, (\<lambda>i. Fin 0), (\<lambda>i. 0), (\<lambda>i. 0)))\<rparr>"

text \<open>
  An allocator for a machine that refuses any request above \<open>10\<^sup>9\<close> bytes and otherwise
  returns a fresh aligned address.
\<close>

definition limited :: allocator where
  "limited h alignment bytes =
     (if 1000000000 < bytes then None else Some (alignment * (1 + length h)))"

section \<open>Well-formed engines\<close>

lemma klt_ok_sizes:
  assumes "klt_ok s"
  shows "0 \<le> acm_order s" and "length (ac_buf s) = ac_size (acm_order s)"
    and "nat (acm_order s) \<le> length (ac_buf s)"
proof -
  from assms have n: "2 \<le> acm_order s" and len: "length (ac_buf s) = ac_size (acm_order s)"
    by (simp_all add: klt_ok_def config_ok_def buffers_ok_def)
  show "0 \<le> acm_order s" using n by simp
  show "length (ac_buf s) = ac_size (acm_order s)" by (rule len)
  have "acm_order s * 2 \<le> (acm_order s + 1) * acm_order s"
    using n by (simp add: mult_right_mono)
  then have "acm_order s \<le> ((acm_order s + 1) * acm_order s) div 2" by simp
  then show "nat (acm_order s) \<le> length (ac_buf s)"
    unfolding len ac_size_def by simp
qed

section \<open>Evaluation\<close>

text \<open>The rules by which the examples are computed.\<close>

lemma expo_num [simp]:
  "expo_up (numeral n) e a =
     (if a < 2 powi (e + 1) then e else expo_up (pred_numeral n) (e + 1) a)"
  "expo_down (numeral n) e a =
     (if 2 powi e \<le> a then e else expo_down (pred_numeral n) (e - 1) a)"
  by (simp_all add: numeral_eq_Suc)

lemmas flt_defs = rnd_def expo_def round_even_def zero_flt_def one_flt_def minus_flt_def
  inverse_flt_def inf_of_sign_def zero_cplx_def plus_cplx_def cmul_def std_conj_def
  scale_def std_max_def cx_def

text \<open>Exact complex numbers are the complex numbers.\<close>

lemma to_complex_simps [simp]:
  "to_complex 0 = 0"
  "to_complex (x + y) = to_complex x + to_complex y"
  "to_complex (cmul x y) = to_complex x * to_complex y"
  "to_complex (std_conj x) = cnj (to_complex x)"
  by (simp_all add: to_complex_def zero_cplx_def plus_cplx_def cmul_def std_conj_def
      complex_eq_iff)

lemma to_complex_foldl:
  "to_complex (foldl (\<lambda>acc t. acc + f t) z [0..<m]) = to_complex z + (\<Sum>t<m. to_complex (f t))"
  by (induction m) (simp_all add: add.assoc)

section \<open>The autocorrelation estimate\<close>

lemma fold_acorr_accum:
  "aidx < length ac \<Longrightarrow>
   fold (acorr_accum inb aidx) [0..<m] ac =
     ac[aidx := foldl (\<lambda>acc t. acc + cmul (inb ! (t + aidx)) (std_conj (inb ! t))) (ac ! aidx) [0..<m]]"
proof (induction m)
  case 0
  then show ?case by simp
next
  case (Suc m)
  then show ?case by (simp add: acorr_accum_def)
qed

lemma acorr_lag_eq:
  "aidx < length ac \<Longrightarrow> acorr_lag inlen inb aidx ac = ac[aidx := lag_sum inlen inb aidx]"
  by (simp add: acorr_lag_def fold_acorr_accum lag_sum_def)

lemma fold_acorr_lag:
  "m \<le> length ac \<Longrightarrow>
   fold (acorr_lag inlen inb) [0..<m] ac = map (lag_sum inlen inb) [0..<m] @ drop m ac"
proof (induction m)
  case 0
  then show ?case by simp
next
  case (Suc m)
  then have m: "m < length ac" by simp
  have "fold (acorr_lag inlen inb) [0..<Suc m] ac =
        acorr_lag inlen inb m (map (lag_sum inlen inb) [0..<m] @ drop m ac)"
    using Suc by simp
  also have "\<dots> = (map (lag_sum inlen inb) [0..<m] @ drop m ac)[m := lag_sum inlen inb m]"
    using m by (intro acorr_lag_eq) simp
  also have "\<dots> = map (lag_sum inlen inb) [0..<m] @ (drop m ac)[0 := lag_sum inlen inb m]"
    by (simp add: list_update_append)
  also have "(drop m ac)[0 := lag_sum inlen inb m] = lag_sum inlen inb m # drop (Suc m) ac"
    using m by (simp add: Cons_nth_drop_Suc [symmetric])
  finally show ?case by simp
qed

lemma acorr_lags_eq:
  "nat n \<le> length ac \<Longrightarrow>
   acorr_lags n inlen inb ac = map (lag_sum inlen inb) [0..<nat n] @ drop (nat n) ac"
  by (simp add: acorr_lags_def fold_acorr_lag)

lemma acorr_lags_nth:
  "nat n \<le> length ac \<Longrightarrow> a < nat n \<Longrightarrow> acorr_lags n inlen inb ac ! a = lag_sum inlen inb a"
  by (simp add: acorr_lags_eq nth_append)

lemma length_acorr_lags:
  "nat n \<le> length ac \<Longrightarrow> length (acorr_lags n inlen inb ac) = length ac"
  by (simp add: acorr_lags_eq)

text \<open>In exact arithmetic the sum taken term by term is the sum.\<close>

lemma lag_sum_exact: "to_complex (lag_sum inlen inb a) = exact_lag_sum inlen inb a"
  by (simp add: lag_sum_def exact_lag_sum_def to_complex_foldl)

section \<open>The packed Toeplitz matrix\<close>

lemma packed_even:
  fixes c n :: nat
  assumes "c < n"
  shows "even (c * (2 * n - c - 1))"
proof -
  from assms obtain k where n: "n = c + 1 + k"
    by (auto simp: less_iff_Suc_add)
  show ?thesis unfolding n by (cases "even c") simp_all
qed

lemma col_start_closed:
  "c < n \<Longrightarrow> col_start n c = c + (c * (2 * n - c - 1)) div 2"
proof (induction c)
  case 0
  then show ?case by simp
next
  case (Suc c)
  then obtain k where n: "n = c + 2 + k"
    by (auto simp: less_iff_Suc_add)
  have ev: "even (c * (2 * n - c - 1))" using Suc.prems by (intro packed_even) simp
  have "Suc c * (2 * n - Suc c - 1) = c * (2 * n - c - 1) + 2 * (n - c - 1)"
    unfolding n by (simp add: algebra_simps)
  then have "(Suc c * (2 * n - Suc c - 1)) div 2 = (c * (2 * n - c - 1)) div 2 + (n - c - 1)"
    using ev by simp
  with Suc show ?case by simp
qed

lemma packed_index_col_start:
  "c \<le> r \<Longrightarrow> r < n \<Longrightarrow> packed_index n r c = col_start n c + (r - c)"
  by (simp add: packed_index_def col_start_closed)

lemma col_start_ge: "n \<le> col_start n (Suc c)"
  by (induction c) auto

lemma col_start_mono: "c \<le> c' \<Longrightarrow> col_start n c \<le> col_start n c'"
  by (induction c') (auto simp: le_Suc_eq)

lemma col_start_double: "c \<le> n \<Longrightarrow> 2 * col_start n c = c * (2 * n + 1 - c)"
proof (induction c)
  case 0
  then show ?case by simp
next
  case (Suc c)
  then obtain k where n: "n = c + 1 + k"
    by (auto simp: le_iff_add)
  from Suc have "2 * col_start n (Suc c) = c * (2 * n + 1 - c) + 2 * (n - c)" by simp
  also have "\<dots> = Suc c * (2 * n + 1 - Suc c)"
    unfolding n by (simp add: algebra_simps)
  finally show ?case .
qed

lemma col_start_full: "0 \<le> n \<Longrightarrow> col_start (nat n) (nat n) = ac_size n"
proof -
  assume n: "0 \<le> n"
  have "col_start (nat n) (nat n) = (2 * col_start (nat n) (nat n)) div 2" by simp
  also have "\<dots> = (nat n * (nat n + 1)) div 2"
    by (simp only: col_start_double [OF order_refl]) simp
  also have "\<dots> = nat (((n + 1) * n) div 2)"
    using n by (simp add: nat_div_distrib nat_mult_distrib nat_add_distrib mult.commute)
  finally show ?thesis by (simp add: ac_size_def)
qed

text \<open>Every cell of the packed buffer is the cell of one row of one column.\<close>

lemma col_start_cover:
  "j < col_start n c \<Longrightarrow> c \<le> n \<Longrightarrow>
   \<exists>c' r. c' < c \<and> c' \<le> r \<and> r < n \<and> j = col_start n c' + (r - c')"
proof (induction c)
  case 0
  then show ?case by simp
next
  case (Suc c)
  show ?case
  proof (cases "j < col_start n c")
    case True
    with Suc obtain c' r where "c' < c" "c' \<le> r" "r < n" "j = col_start n c' + (r - c')"
      by auto
    then show ?thesis by (intro exI [of _ c'] exI [of _ r]) simp
  next
    case False
    with Suc.prems have "c \<le> j - col_start n c + c" "j - col_start n c + c < n"
      "j = col_start n c + (j - col_start n c + c - c)"
      by simp_all
    then show ?thesis by (intro exI [of _ c] exI [of _ "j - col_start n c + c"]) simp
  qed
qed

lemma fold_toeplitz_copy:
  "L \<le> aoidx \<Longrightarrow> aoidx + L \<le> length ac \<Longrightarrow>
   fold toeplitz_copy [0..<L] (aoidx, ac) =
     (aoidx + L, take aoidx ac @ take L ac @ drop (aoidx + L) ac)"
proof (induction L)
  case 0
  then show ?case by simp
next
  case (Suc L)
  then have "fold toeplitz_copy [0..<Suc L] (aoidx, ac) =
      toeplitz_copy L (aoidx + L, take aoidx ac @ take L ac @ drop (aoidx + L) ac)"
    by simp
  also have "\<dots> = (aoidx + Suc L,
      (take aoidx ac @ take L ac @ drop (aoidx + L) ac)[aoidx + L := ac ! L])"
    using Suc.prems by (simp add: toeplitz_copy_def nth_append)
  also have "(take aoidx ac @ take L ac @ drop (aoidx + L) ac)[aoidx + L := ac ! L] =
      take aoidx ac @ take L ac @ (drop (aoidx + L) ac)[0 := ac ! L]"
    using Suc.prems by (simp add: list_update_append)
  also have "(drop (aoidx + L) ac)[0 := ac ! L] = ac ! L # drop (aoidx + Suc L) ac"
    using Suc.prems by (simp add: Cons_nth_drop_Suc [symmetric])
  also have "take L ac @ ac ! L # drop (aoidx + Suc L) ac =
      take (Suc L) ac @ drop (aoidx + Suc L) ac"
    using Suc.prems by (simp add: take_Suc_conv_app_nth)
  finally show ?case by simp
qed

lemma rev_upt_from_1: "rev [1..<n] = map (\<lambda>j. n - j) [1..<n]"
  by (rule nth_equalityI) (auto simp: rev_nth)

text \<open>
  The state of the second loop nest after the columns \<open>1, ..., c\<close>: the output index is
  at the start of the next column, and each column written so far repeats the first.
\<close>

lemma toeplitz_cols:
  assumes len: "length ac = col_start n n"
  shows "c < n \<Longrightarrow>
    (case fold toeplitz_col (map (\<lambda>j. n - j) [1..<Suc c]) (n, ac) of
       (aoidx, buf) \<Rightarrow>
         aoidx = col_start n (Suc c) \<and> length buf = length ac \<and>
         (\<forall>c' r. c' \<le> c \<and> c' \<le> r \<and> r < n \<longrightarrow>
            buf ! (col_start n c' + (r - c')) = ac ! (r - c')))"
proof (induction c)
  case 0
  then show ?case by simp
next
  case (Suc c)
  obtain aoidx buf where st:
    "fold toeplitz_col (map (\<lambda>j. n - j) [1..<Suc c]) (n, ac) = (aoidx, buf)"
    by (cases "fold toeplitz_col (map (\<lambda>j. n - j) [1..<Suc c]) (n, ac)")
  from Suc st have ao: "aoidx = col_start n (Suc c)"
    and lb: "length buf = length ac"
    and inv: "\<And>c' r. c' \<le> c \<Longrightarrow> c' \<le> r \<Longrightarrow> r < n \<Longrightarrow>
                buf ! (col_start n c' + (r - c')) = ac ! (r - c')"
    by auto
  let ?L = "n - Suc c"
  have L1: "?L \<le> aoidx" using col_start_ge [of n c] ao by simp
  have "col_start n (Suc (Suc c)) \<le> col_start n n"
    using Suc.prems by (intro col_start_mono) simp
  then have L2: "aoidx + ?L \<le> length buf"
    using ao lb len by simp
  have step: "fold toeplitz_col (map (\<lambda>j. n - j) [1..<Suc (Suc c)]) (n, ac) =
      (aoidx + ?L, take aoidx buf @ take ?L buf @ drop (aoidx + ?L) buf)"
    using st fold_toeplitz_copy [OF L1 L2] by (simp add: toeplitz_col_def)
  let ?buf' = "take aoidx buf @ take ?L buf @ drop (aoidx + ?L) buf"
  have old: "?buf' ! i = buf ! i" if "i < aoidx" for i
    using that L2 by (simp add: nth_append)
  have new: "?buf' ! (aoidx + k) = buf ! k" if "k < ?L" for k
    using that L1 L2 by (simp add: nth_append)
  have "?buf' ! (col_start n c' + (r - c')) = ac ! (r - c')"
    if h: "c' \<le> Suc c" "c' \<le> r" "r < n" for c' r
  proof (cases "c' = Suc c")
    case True
    have k: "r - c' < ?L" using h True by simp
    have "?buf' ! (col_start n c' + (r - c')) = buf ! (r - c')"
      using new [OF k] ao True by simp
    also have "\<dots> = ac ! (r - c')"
      using inv [of 0 "r - c'"] h by simp
    finally show ?thesis .
  next
    case False
    then have c': "c' \<le> c" using h by simp
    have "col_start n c' + (r - c') < col_start n (Suc c')" using h by simp
    also have "\<dots> \<le> aoidx" unfolding ao using c' by (intro col_start_mono) simp
    finally have "?buf' ! (col_start n c' + (r - c')) = buf ! (col_start n c' + (r - c'))"
      by (rule old)
    with inv [OF c' h(2,3)] show ?thesis by simp
  qed
  then show ?case using step ao lb L2 by simp
qed

lemma toeplitz_nth:
  assumes n: "0 \<le> n" and len: "length ac = ac_size n"
    and cr: "c \<le> r" "r < nat n"
  shows "toeplitz n ac ! (col_start (nat n) c + (r - c)) = ac ! (r - c)"
    and "length (toeplitz n ac) = length ac"
proof -
  from cr obtain m where m: "nat n = Suc m" by (cases "nat n") auto
  have len': "length ac = col_start (nat n) (nat n)"
    using len col_start_full [OF n] by simp
  have "toeplitz n ac = snd (fold toeplitz_col (map (\<lambda>j. nat n - j) [1..<Suc m]) (nat n, ac))"
    unfolding toeplitz_def rev_upt_from_1 m ..
  moreover have "m < nat n" using m by simp
  note toeplitz_cols [OF len' this]
  ultimately show "toeplitz n ac ! (col_start (nat n) c + (r - c)) = ac ! (r - c)"
    and "length (toeplitz n ac) = length ac"
    using cr m by (auto split: prod.splits)
qed

text \<open>What \<^verbatim>\<open>acorr_matrix\<close> leaves in the cell of row \<open>r\<close> of column \<open>c\<close>.\<close>

lemma acorr_matrix_cell:
  assumes ok: "klt_ok s" and cr: "c \<le> r" "r < nat (acm_order s)"
  shows "ac_buf (acorr_matrix s) ! (col_start (nat (acm_order s)) c + (r - c)) =
         lag_sum (in_len s) (in_buf s) (r - c)"
proof -
  let ?lags = "acorr_lags (acm_order s) (in_len s) (in_buf s) (ac_buf s)"
  note sz = klt_ok_sizes [OF ok]
  have len: "length ?lags = ac_size (acm_order s)"
    using sz by (simp add: length_acorr_lags)
  have "ac_buf (acorr_matrix s) ! (col_start (nat (acm_order s)) c + (r - c)) = ?lags ! (r - c)"
    using toeplitz_nth(1) [OF sz(1) len cr] by (simp add: acorr_matrix_def)
  also have "\<dots> = lag_sum (in_len s) (in_buf s) (r - c)"
    using sz(3) cr by (intro acorr_lags_nth) simp_all
  finally show ?thesis .
qed

lemma length_acorr_matrix:
  assumes ok: "klt_ok s"
  shows "length (ac_buf (acorr_matrix s)) = ac_size (acm_order s)"
proof -
  note sz = klt_ok_sizes [OF ok]
  have len: "length (acorr_lags (acm_order s) (in_len s) (in_buf s) (ac_buf s)) =
      ac_size (acm_order s)"
    using sz by (simp add: length_acorr_lags)
  have "0 \<le> (0::nat)" "(0::nat) < nat (acm_order s)"
    using ok by (simp_all add: klt_ok_def config_ok_def)
  from toeplitz_nth(2) [OF sz(1) len this] len show ?thesis
    by (simp add: acorr_matrix_def)
qed




text \<open>In exact arithmetic the estimate is the sum of the spec, as a complex number.\<close>

lemma exact_lag_estimate:
  fixes s :: "real klt"
  assumes "klt_ok s" and "a < nat (acm_order s)"
  shows "to_complex (ac_buf (acorr_matrix s) ! a) =
         (\<Sum>t<nat (in_len s - int a). to_complex (in_buf s ! (t + a)) * cnj (to_complex (in_buf s ! t)))"
proof -
  have "ac_buf (acorr_matrix s) ! (col_start (nat (acm_order s)) 0 + (a - 0)) =
        lag_sum (in_len s) (in_buf s) (a - 0)"
    using assms by (intro acorr_matrix_cell) simp_all
  then show ?thesis using lag_sum_exact [of "in_len s" "in_buf s" a]
    by (simp add: exact_lag_sum_def)
qed

text \<open>
  C5. After \<^verbatim>\<open>acorr_matrix\<close> the packed lower-triangular column-major buffer holds, in
  the cell of packed column \<open>c\<close> and row \<open>r\<close> (\<open>c \<le> r < acm_order\<close>), the autocorrelation at
  lag \<open>r - c\<close>, whatever the column; that is, packed column \<open>c\<close> is the first \<open>acm_order - c\<close>
  lags, the lag sequence of the first column cut one cell shorter per column.
\<close>

theorem acorr_matrix_toeplitz:
  assumes "klt_ok s" and "c \<le> r" and "r < nat (acm_order s)"
  shows "ac_buf (acorr_matrix s) ! packed_index (nat (acm_order s)) r c =
           lag_sum (in_len s) (in_buf s) (r - c) \<and>
         take (nat (acm_order s) - c)
              (drop (col_start (nat (acm_order s)) c) (ac_buf (acorr_matrix s))) =
           map (lag_sum (in_len s) (in_buf s)) [0..<nat (acm_order s) - c]"
proof
  let ?n = "nat (acm_order s)"
  let ?ac = "ac_buf (acorr_matrix s)"
  show "?ac ! packed_index ?n r c = lag_sum (in_len s) (in_buf s) (r - c)"
    using assms acorr_matrix_cell [of s c r]
    by (simp only: packed_index_col_start)
  have c: "c < ?n" using assms by simp
  have "col_start ?n (Suc c) \<le> col_start ?n ?n"
    using c by (intro col_start_mono) simp
  then have fit: "col_start ?n c + (?n - c) \<le> length ?ac"
    using length_acorr_matrix [OF assms(1)] col_start_full [of "acm_order s"]
      klt_ok_sizes(1) [OF assms(1)] by simp
  show "take (?n - c) (drop (col_start ?n c) ?ac) =
        map (lag_sum (in_len s) (in_buf s)) [0..<?n - c]"
  proof (rule nth_equalityI)
    show "length (take (?n - c) (drop (col_start ?n c) ?ac)) =
          length (map (lag_sum (in_len s) (in_buf s)) [0..<?n - c])"
      using fit by simp
  next
    fix i
    assume "i < length (take (?n - c) (drop (col_start ?n c) ?ac))"
    then have i: "i < ?n - c" by simp
    have "?ac ! (col_start ?n c + (i + c - c)) = lag_sum (in_len s) (in_buf s) (i + c - c)"
      using assms(1) i by (intro acorr_matrix_cell) simp_all
    then show "take (?n - c) (drop (col_start ?n c) ?ac) ! i =
               map (lag_sum (in_len s) (in_buf s)) [0..<?n - c] ! i"
      using i fit by simp
  qed
qed

theorem acorr_matrix_toeplitz_witness:
  "klt_ok engine3 \<and>
   ac_buf (acorr_matrix engine3) ! packed_index 3 2 1 = cx 2 2 \<and>
   take 2 (drop 3 (ac_buf (acorr_matrix engine3))) = [cx 6 0, cx 2 2]"
proof -
  have ok: "klt_ok engine3"
    by (simp add: klt_ok_def config_ok_def buffers_ok_def engine3_def ac_size_def)
  have n: "nat (acm_order engine3) = 3" by (simp add: engine3_def)
  have l0: "lag_sum (in_len engine3) (in_buf engine3) 0 = cx 6 0"
    by (simp add: engine3_def lag_sum_def upt_rec flt_defs)
  have l1: "lag_sum (in_len engine3) (in_buf engine3) 1 = cx 2 2"
    by (simp add: engine3_def lag_sum_def upt_rec flt_defs)
  show ?thesis
    using acorr_matrix_toeplitz [of engine3 1 2] ok n l0 l1
    by (simp add: eval_nat_numeral upt_rec)
qed

section \<open>What each stage leaves alone\<close>

lemma chptrd_frame [simp]:
  "in_len (snd (call_chptrd L s)) = in_len s"
  "window (snd (call_chptrd L s)) = window s"
  "eval_normalized (snd (call_chptrd L s)) = eval_normalized s"
  "acm_order (snd (call_chptrd L s)) = acm_order s"
  "num_eig (snd (call_chptrd L s)) = num_eig s"
  "in_buf (snd (call_chptrd L s)) = in_buf s"
  "win_buf (snd (call_chptrd L s)) = win_buf s"
  "eval_buf (snd (call_chptrd L s)) = eval_buf s"
  "kltc_buf (snd (call_chptrd L s)) = kltc_buf s"
  "kltb_buf (snd (call_chptrd L s)) = kltb_buf s"
  "ib_buf (snd (call_chptrd L s)) = ib_buf s"
  "is_buf (snd (call_chptrd L s)) = is_buf s"
  "if_buf (snd (call_chptrd L s)) = if_buf s"
  by (simp_all add: call_chptrd_def split_beta)

lemma sstebz_frame [simp]:
  "in_len (snd (snd (snd (call_sstebz L s)))) = in_len s"
  "window (snd (snd (snd (call_sstebz L s)))) = window s"
  "eval_normalized (snd (snd (snd (call_sstebz L s)))) = eval_normalized s"
  "acm_order (snd (snd (snd (call_sstebz L s)))) = acm_order s"
  "num_eig (snd (snd (snd (call_sstebz L s)))) = num_eig s"
  "in_buf (snd (snd (snd (call_sstebz L s)))) = in_buf s"
  "win_buf (snd (snd (snd (call_sstebz L s)))) = win_buf s"
  "ac_buf (snd (snd (snd (call_sstebz L s)))) = ac_buf s"
  "kltc_buf (snd (snd (snd (call_sstebz L s)))) = kltc_buf s"
  "kltb_buf (snd (snd (snd (call_sstebz L s)))) = kltb_buf s"
  "d_buf (snd (snd (snd (call_sstebz L s)))) = d_buf s"
  "e_buf (snd (snd (snd (call_sstebz L s)))) = e_buf s"
  "tau_buf (snd (snd (snd (call_sstebz L s)))) = tau_buf s"
  "if_buf (snd (snd (snd (call_sstebz L s)))) = if_buf s"
  by (simp_all add: call_sstebz_def split_beta)

lemma cstein_frame [simp]:
  "in_len (snd (call_cstein L m s)) = in_len s"
  "window (snd (call_cstein L m s)) = window s"
  "eval_normalized (snd (call_cstein L m s)) = eval_normalized s"
  "acm_order (snd (call_cstein L m s)) = acm_order s"
  "num_eig (snd (call_cstein L m s)) = num_eig s"
  "in_buf (snd (call_cstein L m s)) = in_buf s"
  "win_buf (snd (call_cstein L m s)) = win_buf s"
  "ac_buf (snd (call_cstein L m s)) = ac_buf s"
  "eval_buf (snd (call_cstein L m s)) = eval_buf s"
  "kltc_buf (snd (call_cstein L m s)) = kltc_buf s"
  "d_buf (snd (call_cstein L m s)) = d_buf s"
  "e_buf (snd (call_cstein L m s)) = e_buf s"
  "tau_buf (snd (call_cstein L m s)) = tau_buf s"
  "ib_buf (snd (call_cstein L m s)) = ib_buf s"
  "is_buf (snd (call_cstein L m s)) = is_buf s"
  by (simp_all add: call_cstein_def split_beta)

lemma cupmtr_frame [simp]:
  "in_len (snd (call_cupmtr L m s)) = in_len s"
  "window (snd (call_cupmtr L m s)) = window s"
  "eval_normalized (snd (call_cupmtr L m s)) = eval_normalized s"
  "acm_order (snd (call_cupmtr L m s)) = acm_order s"
  "num_eig (snd (call_cupmtr L m s)) = num_eig s"
  "in_buf (snd (call_cupmtr L m s)) = in_buf s"
  "win_buf (snd (call_cupmtr L m s)) = win_buf s"
  "ac_buf (snd (call_cupmtr L m s)) = ac_buf s"
  "eval_buf (snd (call_cupmtr L m s)) = eval_buf s"
  "kltc_buf (snd (call_cupmtr L m s)) = kltc_buf s"
  "d_buf (snd (call_cupmtr L m s)) = d_buf s"
  "e_buf (snd (call_cupmtr L m s)) = e_buf s"
  "tau_buf (snd (call_cupmtr L m s)) = tau_buf s"
  "ib_buf (snd (call_cupmtr L m s)) = ib_buf s"
  "is_buf (snd (call_cupmtr L m s)) = is_buf s"
  "if_buf (snd (call_cupmtr L m s)) = if_buf s"
  by (simp_all add: call_cupmtr_def split_beta)

lemma zero_outputs_frame [simp]:
  "in_len (zero_outputs s) = in_len s"
  "window (zero_outputs s) = window s"
  "eval_normalized (zero_outputs s) = eval_normalized s"
  "acm_order (zero_outputs s) = acm_order s"
  "num_eig (zero_outputs s) = num_eig s"
  "in_buf (zero_outputs s) = in_buf s"
  "win_buf (zero_outputs s) = win_buf s"
  "ac_buf (zero_outputs s) = ac_buf s"
  "kltc_buf (zero_outputs s) = kltc_buf s"
  "d_buf (zero_outputs s) = d_buf s"
  "e_buf (zero_outputs s) = e_buf s"
  "tau_buf (zero_outputs s) = tau_buf s"
  "ib_buf (zero_outputs s) = ib_buf s"
  "is_buf (zero_outputs s) = is_buf s"
  "if_buf (zero_outputs s) = if_buf s"
  by (simp_all add: zero_outputs_def)

text \<open>The stages of eigendecomp, named.\<close>

lemma eigendecomp_stages:
  "eigendecomp L s =
     (let c1 = call_chptrd L s; s1 = snd c1 in
      if fst c1 \<noteq> 0 then Thrown (Lapack_failed Chptrd (fst c1)) (zero_outputs s1)
      else
        let c2 = call_sstebz L s1; m = fst (snd c2); s2 = snd (snd (snd c2)) in
        if fst c2 \<noteq> 0 then Thrown (Lapack_failed Sstebz (fst c2)) (zero_outputs s2)
        else
          let c3 = call_cstein L m s2; s3 = snd c3 in
          if fst c3 \<noteq> 0 then Thrown (Lapack_failed Cstein (fst c3)) (zero_outputs s3)
          else
            let c4 = call_cupmtr L m s3; s4 = snd c4 in
            if fst c4 \<noteq> 0 then Thrown (Lapack_failed Cupmtr (fst c4)) (zero_outputs s4)
            else Returned s4)"
  by (simp add: eigendecomp_def split_beta Let_def)

lemma eigendecomp_frame [simp]:
  "in_len (final (eigendecomp L s)) = in_len s"
  "window (final (eigendecomp L s)) = window s"
  "eval_normalized (final (eigendecomp L s)) = eval_normalized s"
  "acm_order (final (eigendecomp L s)) = acm_order s"
  "num_eig (final (eigendecomp L s)) = num_eig s"
  "in_buf (final (eigendecomp L s)) = in_buf s"
  "win_buf (final (eigendecomp L s)) = win_buf s"
  "kltc_buf (final (eigendecomp L s)) = kltc_buf s"
  by (simp_all add: eigendecomp_stages Let_def)

lemma acorr_matrix_frame [simp]:
  "in_len (acorr_matrix s) = in_len s"
  "window (acorr_matrix s) = window s"
  "eval_normalized (acorr_matrix s) = eval_normalized s"
  "acm_order (acorr_matrix s) = acm_order s"
  "num_eig (acorr_matrix s) = num_eig s"
  "in_buf (acorr_matrix s) = in_buf s"
  "win_buf (acorr_matrix s) = win_buf s"
  "eval_buf (acorr_matrix s) = eval_buf s"
  "kltc_buf (acorr_matrix s) = kltc_buf s"
  "kltb_buf (acorr_matrix s) = kltb_buf s"
  "d_buf (acorr_matrix s) = d_buf s"
  "e_buf (acorr_matrix s) = e_buf s"
  "tau_buf (acorr_matrix s) = tau_buf s"
  "ib_buf (acorr_matrix s) = ib_buf s"
  "is_buf (acorr_matrix s) = is_buf s"
  "if_buf (acorr_matrix s) = if_buf s"
  by (simp_all add: acorr_matrix_def)

lemma compute_coeffs_frame [simp]:
  "in_len (compute_coeffs s) = in_len s"
  "window (compute_coeffs s) = window s"
  "eval_normalized (compute_coeffs s) = eval_normalized s"
  "acm_order (compute_coeffs s) = acm_order s"
  "num_eig (compute_coeffs s) = num_eig s"
  "in_buf (compute_coeffs s) = in_buf s"
  "win_buf (compute_coeffs s) = win_buf s"
  "ac_buf (compute_coeffs s) = ac_buf s"
  "eval_buf (compute_coeffs s) = eval_buf s"
  "kltb_buf (compute_coeffs s) = kltb_buf s"
  "d_buf (compute_coeffs s) = d_buf s"
  "e_buf (compute_coeffs s) = e_buf s"
  "tau_buf (compute_coeffs s) = tau_buf s"
  "ib_buf (compute_coeffs s) = ib_buf s"
  "is_buf (compute_coeffs s) = is_buf s"
  "if_buf (compute_coeffs s) = if_buf s"
  by (simp_all add: compute_coeffs_def)

lemma apply_coeffs_frame [simp]:
  "in_len (apply_coeffs s) = in_len s"
  "window (apply_coeffs s) = window s"
  "eval_normalized (apply_coeffs s) = eval_normalized s"
  "acm_order (apply_coeffs s) = acm_order s"
  "num_eig (apply_coeffs s) = num_eig s"
  "in_buf (apply_coeffs s) = in_buf s"
  "win_buf (apply_coeffs s) = win_buf s"
  "ac_buf (apply_coeffs s) = ac_buf s"
  "eval_buf (apply_coeffs s) = eval_buf s"
  "kltc_buf (apply_coeffs s) = kltc_buf s"
  "d_buf (apply_coeffs s) = d_buf s"
  "e_buf (apply_coeffs s) = e_buf s"
  "tau_buf (apply_coeffs s) = tau_buf s"
  "ib_buf (apply_coeffs s) = ib_buf s"
  "is_buf (apply_coeffs s) = is_buf s"
  "if_buf (apply_coeffs s) = if_buf s"
  by (simp_all add: apply_coeffs_def)

lemma normalize_evals_frame [simp]:
  "in_len (normalize_evals s) = in_len s"
  "window (normalize_evals s) = window s"
  "eval_normalized (normalize_evals s) = eval_normalized s"
  "acm_order (normalize_evals s) = acm_order s"
  "num_eig (normalize_evals s) = num_eig s"
  "in_buf (normalize_evals s) = in_buf s"
  "win_buf (normalize_evals s) = win_buf s"
  "ac_buf (normalize_evals s) = ac_buf s"
  "kltc_buf (normalize_evals s) = kltc_buf s"
  "kltb_buf (normalize_evals s) = kltb_buf s"
  "d_buf (normalize_evals s) = d_buf s"
  "e_buf (normalize_evals s) = e_buf s"
  "tau_buf (normalize_evals s) = tau_buf s"
  "ib_buf (normalize_evals s) = ib_buf s"
  "is_buf (normalize_evals s) = is_buf s"
  "if_buf (normalize_evals s) = if_buf s"
  by (simp_all add: normalize_evals_def Let_def)

lemma windowed_frame [simp]:
  "in_len (windowed B s) = in_len s"
  "window (windowed B s) = window s"
  "eval_normalized (windowed B s) = eval_normalized s"
  "acm_order (windowed B s) = acm_order s"
  "num_eig (windowed B s) = num_eig s"
  "win_buf (windowed B s) = win_buf s"
  "ac_buf (windowed B s) = ac_buf s"
  "eval_buf (windowed B s) = eval_buf s"
  "kltc_buf (windowed B s) = kltc_buf s"
  "kltb_buf (windowed B s) = kltb_buf s"
  "d_buf (windowed B s) = d_buf s"
  "e_buf (windowed B s) = e_buf s"
  "tau_buf (windowed B s) = tau_buf s"
  "ib_buf (windowed B s) = ib_buf s"
  "is_buf (windowed B s) = is_buf s"
  "if_buf (windowed B s) = if_buf s"
  by (simp_all add: windowed_def apply_window_def)

lemma normalized_frame [simp]:
  "in_len (normalized B s) = in_len s"
  "window (normalized B s) = window s"
  "eval_normalized (normalized B s) = eval_normalized s"
  "acm_order (normalized B s) = acm_order s"
  "num_eig (normalized B s) = num_eig s"
  "in_buf (normalized B s) = in_buf s"
  "win_buf (normalized B s) = win_buf s"
  "ac_buf (normalized B s) = ac_buf s"
  "kltc_buf (normalized B s) = kltc_buf s"
  "kltb_buf (normalized B s) = kltb_buf s"
  "d_buf (normalized B s) = d_buf s"
  "e_buf (normalized B s) = e_buf s"
  "tau_buf (normalized B s) = tau_buf s"
  "ib_buf (normalized B s) = ib_buf s"
  "is_buf (normalized B s) = is_buf s"
  "if_buf (normalized B s) = if_buf s"
  by (simp_all add: normalized_def)

lemma transform_thrown:
  "thrown (transform B L s) = thrown (eigendecomp L (acorr_matrix (windowed B s)))"
  by (simp add: transform_def split: outcome.splits)

lemma transform_final:
  "final (transform B L s) =
     (let r = eigendecomp L (acorr_matrix (windowed B s)) in
      if thrown r = None then apply_coeffs (compute_coeffs (normalized B (final r)))
      else final r)"
  by (simp add: transform_def split: outcome.splits)

lemma windowed_shipped [simp]: "windowed shipped s = s"
  by (simp add: windowed_def shipped_def)

lemma normalized_shipped [simp]: "normalized shipped s = s"
  by (simp add: normalized_def shipped_def)

text \<open>Neither flag is read by a stage that the shipped build compiles.\<close>

lemma call_chptrd_flags:
  "call_chptrd L (s\<lparr>window := w, eval_normalized := e\<rparr>) =
     (fst (call_chptrd L s), (snd (call_chptrd L s))\<lparr>window := w, eval_normalized := e\<rparr>)"
  by (simp add: call_chptrd_def split_beta)

lemma call_sstebz_flags:
  "call_sstebz L (s\<lparr>window := w, eval_normalized := e\<rparr>) =
     (fst (call_sstebz L s), fst (snd (call_sstebz L s)), fst (snd (snd (call_sstebz L s))),
      (snd (snd (snd (call_sstebz L s))))\<lparr>window := w, eval_normalized := e\<rparr>)"
  by (simp add: call_sstebz_def il_def iu_def split_beta)

lemma call_cstein_flags:
  "call_cstein L m (s\<lparr>window := w, eval_normalized := e\<rparr>) =
     (fst (call_cstein L m s), (snd (call_cstein L m s))\<lparr>window := w, eval_normalized := e\<rparr>)"
  by (simp add: call_cstein_def split_beta)

lemma call_cupmtr_flags:
  "call_cupmtr L m (s\<lparr>window := w, eval_normalized := e\<rparr>) =
     (fst (call_cupmtr L m s), (snd (call_cupmtr L m s))\<lparr>window := w, eval_normalized := e\<rparr>)"
  by (simp add: call_cupmtr_def split_beta)

lemma zero_outputs_flags:
  "zero_outputs (s\<lparr>window := w, eval_normalized := e\<rparr>) =
     (zero_outputs s)\<lparr>window := w, eval_normalized := e\<rparr>"
  by (simp add: zero_outputs_def)

lemma eigendecomp_flags:
  "thrown (eigendecomp L (s\<lparr>window := w, eval_normalized := e\<rparr>)) = thrown (eigendecomp L s)"
  "final (eigendecomp L (s\<lparr>window := w, eval_normalized := e\<rparr>)) =
     (final (eigendecomp L s))\<lparr>window := w, eval_normalized := e\<rparr>"
  by (simp_all add: eigendecomp_stages Let_def call_chptrd_flags call_sstebz_flags
      call_cstein_flags call_cupmtr_flags zero_outputs_flags)

lemma acorr_matrix_flags:
  "acorr_matrix (s\<lparr>window := w, eval_normalized := e\<rparr>) =
     (acorr_matrix s)\<lparr>window := w, eval_normalized := e\<rparr>"
  by (simp add: acorr_matrix_def)

lemma coeffs_flags:
  "apply_coeffs (compute_coeffs (s\<lparr>window := w, eval_normalized := e\<rparr>)) =
     (apply_coeffs (compute_coeffs s))\<lparr>window := w, eval_normalized := e\<rparr>"
  by (simp add: apply_coeffs_def compute_coeffs_def)


text \<open>The definitions that a run of \<^verbatim>\<open>transform\<close> on a concrete engine unfolds.\<close>

lemmas run_defs = transform_def eigendecomp_def call_chptrd_def call_sstebz_def call_cstein_def
  call_cupmtr_def zero_outputs_def il_def iu_def acorr_matrix_def toeplitz_def acorr_lags_def
  acorr_lag_def acorr_accum_def toeplitz_col_def toeplitz_copy_def windowed_def normalized_def
  shipped_def store_def compute_coeffs_def coeff_column_def coeff_accum_def apply_coeffs_def
  weight_column_def weight_cell_def LAPACK_COL_MAJOR_def ac_size_def

lemma length_store [simp]: "length (store k f buf) = length buf"
  by (simp add: store_def)



section \<open>The eigenvalue search\<close>

text \<open>
  What the search would answer for any other request has no effect on \<^verbatim>\<open>eigendecomp\<close>: an
  eigensolver may be replaced by one that agrees with it on the request for the indices
  \<open>acm_order - num_eig + 1\<close> to \<open>acm_order\<close>.
\<close>

lemma eigendecomp_other_requests:
  assumes chptrd: "LAPACKE_chptrd L' = LAPACKE_chptrd L"
    and cstein: "LAPACKE_cstein L' = LAPACKE_cstein L"
    and cupmtr: "LAPACKE_cupmtr L' = LAPACKE_cupmtr L"
    and sstebz: "\<And>d e.
      LAPACKE_sstebz L' CHR ''I'' CHR ''B'' (acm_order s) 0 0
          (acm_order s - num_eig s + 1) (acm_order s) 0 d e =
      LAPACKE_sstebz L CHR ''I'' CHR ''B'' (acm_order s) 0 0
          (acm_order s - num_eig s + 1) (acm_order s) 0 d e"
  shows "eigendecomp L' s = eigendecomp L s"
proof -
  have c1: "call_chptrd L' t = call_chptrd L t" for t
    by (simp add: call_chptrd_def chptrd)
  have c2: "call_sstebz L' t = call_sstebz L t"
    if "acm_order t = acm_order s" "num_eig t = num_eig s" for t
    using that by (simp add: call_sstebz_def il_def iu_def sstebz)
  have c3: "call_cstein L' m t = call_cstein L m t" for m t
    by (simp add: call_cstein_def cstein)
  have c4: "call_cupmtr L' m t = call_cupmtr L m t" for m t
    by (simp add: call_cupmtr_def cupmtr)
  show ?thesis
    by (simp add: eigendecomp_stages Let_def c1 c2 c3 c4)
qed

lemma eigendecomp_other_requests_example:
  "eigendecomp top2_only engine3 = eigendecomp (solver 2 1 1) engine3"
  by (rule eigendecomp_other_requests) (simp_all add: top2_only_def engine3_def)

text \<open>The searches in the history of the calls, stage by stage.\<close>

lemma searches_logged [simp]:
  "filter is_search (lapack_log (snd (call_chptrd L s))) = filter is_search (lapack_log s)"
  "filter is_search (lapack_log (snd (snd (snd (call_sstebz L s))))) =
     filter is_search (lapack_log s) @
       [Call_sstebz CHR ''I'' CHR ''B'' (acm_order s) 0 0 (il s) (iu s) 0]"
  "filter is_search (lapack_log (snd (call_cstein L m s))) = filter is_search (lapack_log s)"
  "filter is_search (lapack_log (snd (call_cupmtr L m s))) = filter is_search (lapack_log s)"
  "lapack_log (zero_outputs s) = lapack_log s"
  by (simp_all add: call_chptrd_def call_sstebz_def call_cstein_def call_cupmtr_def
      zero_outputs_def split_beta)

lemma search_range [simp]:
  "il (snd (call_chptrd L s)) = il s"
  "iu (snd (call_chptrd L s)) = iu s"
  by (simp_all add: il_def iu_def)

text \<open>
  C3. Whenever the reduction succeeds, \<^verbatim>\<open>eigendecomp\<close> calls the eigenvalue search once,
  with range \<open>'I'\<close>, order \<open>'B'\<close> (by block), dimension \<open>acm_order\<close>, lower index
  \<open>acm_order - num_eig + 1\<close> and upper index \<open>acm_order\<close>, and it makes no other search
  (when the reduction fails it makes none). The range lies in \<open>[1, acm_order]\<close>, ends at
  the largest index and counts \<open>num_eig\<close> indices. When \<^verbatim>\<open>eigendecomp\<close> returns, the
  eigenvalue buffer holds what that one call put in its array \<open>w\<close>: no other eigenvalue is
  produced. (That the routine answers a request for the indices \<open>il\<close> to \<open>iu\<close> with the
  eigenvalues of those indices is LAPACK's contract.)
\<close>

theorem eigendecomp_search_range:
  assumes cfg: "config_ok s"
  shows "filter is_search (lapack_log (final (eigendecomp L s))) =
           filter is_search (lapack_log s) @
           (if fst (call_chptrd L s) = 0
            then [Call_sstebz CHR ''I'' CHR ''B'' (acm_order s) 0 0
                    (acm_order s - num_eig s + 1) (acm_order s) 0]
            else []) \<and>
         1 \<le> acm_order s - num_eig s + 1 \<and>
         acm_order s - num_eig s + 1 \<le> acm_order s \<and>
         acm_order s - (acm_order s - num_eig s + 1) + 1 = num_eig s \<and>
         (thrown (eigendecomp L s) = None \<longrightarrow>
            fst (call_chptrd L s) = 0 \<and>
            eval_buf (final (eigendecomp L s)) =
              store (nat (acm_order s))
                (fst (snd (snd (snd
                   (LAPACKE_sstebz L CHR ''I'' CHR ''B'' (acm_order s) 0 0
                      (acm_order s - num_eig s + 1) (acm_order s) 0
                      (d_buf (snd (call_chptrd L s))) (e_buf (snd (call_chptrd L s))))))))
                (eval_buf s))"
proof (intro conjI impI)
  show "filter is_search (lapack_log (final (eigendecomp L s))) =
        filter is_search (lapack_log s) @
        (if fst (call_chptrd L s) = 0
         then [Call_sstebz CHR ''I'' CHR ''B'' (acm_order s) 0 0
                 (acm_order s - num_eig s + 1) (acm_order s) 0]
         else [])"
    by (simp add: eigendecomp_stages Let_def) (simp add: il_def iu_def)
  show "1 \<le> acm_order s - num_eig s + 1" "acm_order s - num_eig s + 1 \<le> acm_order s"
    "acm_order s - (acm_order s - num_eig s + 1) + 1 = num_eig s"
    using cfg by (simp_all add: config_ok_def)
next
  assume ret: "thrown (eigendecomp L s) = None"
  then show "fst (call_chptrd L s) = 0"
    by (simp add: eigendecomp_stages Let_def split: if_splits)
  from ret have "eval_buf (final (eigendecomp L s)) =
      eval_buf (snd (snd (snd (call_sstebz L (snd (call_chptrd L s))))))"
    by (simp add: eigendecomp_stages Let_def split: if_splits)
  also have "\<dots> = store (nat (acm_order s))
      (fst (snd (snd (snd
         (LAPACKE_sstebz L CHR ''I'' CHR ''B'' (acm_order s) 0 0
            (acm_order s - num_eig s + 1) (acm_order s) 0
            (d_buf (snd (call_chptrd L s))) (e_buf (snd (call_chptrd L s))))))))
      (eval_buf s)"
    by (simp add: call_sstebz_def split_beta il_def iu_def)
  finally show "eval_buf (final (eigendecomp L s)) =
      store (nat (acm_order s))
        (fst (snd (snd (snd
           (LAPACKE_sstebz L CHR ''I'' CHR ''B'' (acm_order s) 0 0
              (acm_order s - num_eig s + 1) (acm_order s) 0
              (d_buf (snd (call_chptrd L s))) (e_buf (snd (call_chptrd L s))))))))
        (eval_buf s)" .
qed

theorem eigendecomp_search_range_witness:
  "config_ok engine3 \<and> thrown (eigendecomp (solver 2 1 1) engine3) = None \<and>
   filter is_search (lapack_log (final (eigendecomp (solver 2 1 1) engine3))) =
     [Call_sstebz CHR ''I'' CHR ''B'' 3 0 0 2 3 0] \<and>
   eval_buf (final (eigendecomp (solver 2 1 1) engine3)) = [Fin 1, Fin 2, Fin 3]"
proof -
  have cfg: "config_ok engine3" by (simp add: config_ok_def engine3_def)
  have ret: "thrown (eigendecomp (solver 2 1 1) engine3) = None"
    by (simp add: eigendecomp_stages Let_def call_chptrd_def call_sstebz_def call_cstein_def
        call_cupmtr_def solver_def split_beta)
  have r1: "fst (call_chptrd (solver 2 1 1) engine3) = 0"
    by (simp add: call_chptrd_def solver_def)
  note res = eigendecomp_search_range [OF cfg, of "solver 2 1 1"]
  have log: "filter is_search (lapack_log (final (eigendecomp (solver 2 1 1) engine3))) =
      [Call_sstebz CHR ''I'' CHR ''B'' 3 0 0 2 3 0]"
    using res r1 by (simp add: engine3_def)
  have "eval_buf (final (eigendecomp (solver 2 1 1) engine3)) =
      store (nat (acm_order engine3))
        (fst (snd (snd (snd
           (LAPACKE_sstebz (solver 2 1 1) CHR ''I'' CHR ''B'' (acm_order engine3) 0 0
              (acm_order engine3 - num_eig engine3 + 1) (acm_order engine3) 0
              (d_buf (snd (call_chptrd (solver 2 1 1) engine3)))
              (e_buf (snd (call_chptrd (solver 2 1 1) engine3))))))))
        (eval_buf engine3)"
    using res ret by blast
  also have "\<dots> = [Fin 1, Fin 2, Fin 3]"
    by (simp add: solver_def engine3_def store_def upt_rec)
  finally show ?thesis using cfg ret log by simp
qed




section \<open>The input buffer in the shipped build\<close>

text \<open>
  C10. With \<^verbatim>\<open>KLT_SUPPORT_WIN\<close> and \<^verbatim>\<open>KLT_SUPPORT_EVALN\<close> at 0, \<^verbatim>\<open>transform\<close> leaves
  \<open>in_buf\<close> as the caller wrote it, whether it returns or throws; the eigenvalues are
  those of \<^verbatim>\<open>eigendecomp\<close>, not normalized; and the flags \<open>window\<close> and
  \<open>eval_normalized\<close>, which the shipped constructor cannot receive, change nothing.
\<close>

theorem shipped_transform_input:
  "in_buf (final (transform shipped L s)) = in_buf s \<and>
   eval_buf (final (transform shipped L s)) = eval_buf (final (eigendecomp L (acorr_matrix s))) \<and>
   thrown (transform shipped L (s\<lparr>window := w, eval_normalized := e\<rparr>)) =
     thrown (transform shipped L s) \<and>
   final (transform shipped L (s\<lparr>window := w, eval_normalized := e\<rparr>)) =
     (final (transform shipped L s))\<lparr>window := w, eval_normalized := e\<rparr>"
proof (intro conjI)
  show "in_buf (final (transform shipped L s)) = in_buf s"
    by (simp add: transform_final Let_def)
  show "eval_buf (final (transform shipped L s)) =
        eval_buf (final (eigendecomp L (acorr_matrix s)))"
    by (simp add: transform_final Let_def)
  show "thrown (transform shipped L (s\<lparr>window := w, eval_normalized := e\<rparr>)) =
        thrown (transform shipped L s)"
    by (simp add: transform_thrown acorr_matrix_flags eigendecomp_flags)
  show "final (transform shipped L (s\<lparr>window := w, eval_normalized := e\<rparr>)) =
        (final (transform shipped L s))\<lparr>window := w, eval_normalized := e\<rparr>"
    by (simp add: transform_final Let_def acorr_matrix_flags eigendecomp_flags coeffs_flags)
qed

section \<open>The outputs after a numeric failure\<close>

text \<open>
  Every failure branch of \<^verbatim>\<open>eigendecomp\<close> clears \<open>eval_buf\<close> and \<open>kltb_buf\<close> and throws;
  no statement of \<^verbatim>\<open>eigendecomp\<close> or \<^verbatim>\<open>transform\<close> on that path writes \<open>kltc_buf\<close>.
\<close>

lemma failed_transform_kltc:
  assumes "thrown (transform B L s) \<noteq> None"
  shows "kltc_buf (final (transform B L s)) = kltc_buf s"
proof -
  from assms have "final (transform B L s) = final (eigendecomp L (acorr_matrix (windowed B s)))"
    by (auto simp: transform_final transform_thrown Let_def)
  then show ?thesis by simp
qed

text \<open>
  C1. The comments of \<^verbatim>\<open>klt.hh\<close> and \<^verbatim>\<open>klt.cc\<close> promise that after an error all of
  \<open>eval_buf\<close>, \<open>kltc_buf\<close> and \<open>kltb_buf\<close> are 0. On the engine \<open>engine3\<close>, whose coefficient
  buffer holds \<open>5, 5\<close>, a reduction that reports \<open>info = -4\<close> makes \<^verbatim>\<open>transform\<close> throw with
  the eigenvalues and the basis cleared and the coefficients still \<open>5, 5\<close>.
\<close>

theorem failed_transform_keeps_coefficients:
  "thrown (transform shipped chptrd_fails engine3) = Some (Lapack_failed Chptrd (- 4)) \<and>
   take 2 (eval_buf (final (transform shipped chptrd_fails engine3))) = [Fin 0, Fin 0] \<and>
   kltb_buf (final (transform shipped chptrd_fails engine3)) =
     [cx 0 0, cx 0 0, cx 0 0, cx 0 0, cx 0 0, cx 0 0] \<and>
   kltc_buf (final (transform shipped chptrd_fails engine3)) = [cx 5 0, cx 5 0]"
  by (simp add: run_defs flt_defs engine3_def chptrd_fails_def solver_def upt_rec)

section \<open>Coefficients and weighted basis\<close>

lemma fold_coeff_accum:
  "cidx < length kc \<Longrightarrow>
   fold (coeff_accum n inb kb cidx) [0..<m] kc =
     kc[cidx := foldl (\<lambda>acc t. acc + cmul (inb ! t) (std_conj (kb ! (cidx * nat n + t))))
                  (kc ! cidx) [0..<m]]"
proof (induction m)
  case 0
  then show ?case by simp
next
  case (Suc m)
  then show ?case by (simp add: coeff_accum_def)
qed

lemma coeff_column_eq:
  "cidx < length kc \<Longrightarrow> coeff_column n inb kb cidx kc = kc[cidx := projection n inb kb cidx]"
  by (simp add: coeff_column_def fold_coeff_accum projection_def)

lemma fold_coeff_column:
  "k \<le> length kc \<Longrightarrow>
   fold (coeff_column n inb kb) [0..<k] kc = map (projection n inb kb) [0..<k] @ drop k kc"
proof (induction k)
  case 0
  then show ?case by simp
next
  case (Suc k)
  then have k: "k < length kc" by simp
  have "fold (coeff_column n inb kb) [0..<Suc k] kc =
        coeff_column n inb kb k (map (projection n inb kb) [0..<k] @ drop k kc)"
    using Suc by simp
  also have "\<dots> = (map (projection n inb kb) [0..<k] @ drop k kc)[k := projection n inb kb k]"
    using k by (intro coeff_column_eq) simp
  also have "\<dots> = map (projection n inb kb) [0..<k] @ (drop k kc)[0 := projection n inb kb k]"
    by (simp add: list_update_append)
  also have "(drop k kc)[0 := projection n inb kb k] = projection n inb kb k # drop (Suc k) kc"
    using k by (simp add: Cons_nth_drop_Suc [symmetric])
  finally show ?case by simp
qed

lemma compute_coeffs_kltc:
  "length (kltc_buf s) = nat (num_eig s) \<Longrightarrow>
   kltc_buf (compute_coeffs s) =
     map (projection (acm_order s) (in_buf s) (kltb_buf s)) [0..<nat (num_eig s)]"
  by (simp add: compute_coeffs_def fold_coeff_column)

lemma fold_weight_cell:
  "length (fold (weight_cell n kc c) [0..<m] kb) = length kb \<and>
   (\<forall>j<length kb. fold (weight_cell n kc c) [0..<m] kb ! j =
      (if c * nat n \<le> j \<and> j < c * nat n + m then cmul (kb ! j) (kc ! c) else kb ! j))"
proof (induction m)
  case 0
  then show ?case by auto
next
  case (Suc m)
  let ?f = "fold (weight_cell n kc c) [0..<m] kb"
  have step: "fold (weight_cell n kc c) [0..<Suc m] kb =
      ?f[c * nat n + m := cmul (?f ! (c * nat n + m)) (kc ! c)]"
    by (simp add: weight_cell_def)
  from Suc have len: "length ?f = length kb"
    and old: "\<And>j. j < length kb \<Longrightarrow> ?f ! j =
      (if c * nat n \<le> j \<and> j < c * nat n + m then cmul (kb ! j) (kc ! c) else kb ! j)"
    by simp_all
  show ?case
    unfolding step
  proof (intro conjI allI impI)
    show "length (?f[c * nat n + m := cmul (?f ! (c * nat n + m)) (kc ! c)]) = length kb"
      using len by simp
  next
    fix j
    assume j: "j < length kb"
    show "?f[c * nat n + m := cmul (?f ! (c * nat n + m)) (kc ! c)] ! j =
          (if c * nat n \<le> j \<and> j < c * nat n + Suc m then cmul (kb ! j) (kc ! c) else kb ! j)"
    proof (cases "j = c * nat n + m")
      case True
      then show ?thesis using j len old [of j] by simp
    next
      case False
      then have "j < c * nat n + Suc m \<longleftrightarrow> j < c * nat n + m" by auto
      with False show ?thesis using j len old [of j] by simp
    qed
  qed
qed

lemma weight_column_nth:
  "j < length kb \<Longrightarrow>
   weight_column n kc c kb ! j =
     (if c * nat n \<le> j \<and> j < c * nat n + nat n then cmul (kb ! j) (kc ! c) else kb ! j)"
  "length (weight_column n kc c kb) = length kb"
  using fold_weight_cell [of n kc c "nat n" kb] by (simp_all add: weight_column_def)

lemma fold_weight_column:
  "length (fold (weight_column n kc) [0..<k] kb) = length kb \<and>
   (\<forall>j<length kb. fold (weight_column n kc) [0..<k] kb ! j =
      (if j < k * nat n then cmul (kb ! j) (kc ! (j div nat n)) else kb ! j))"
proof (induction k)
  case 0
  then show ?case by simp
next
  case (Suc k)
  have div: "j div nat n = k" if "k * nat n \<le> j" "j < k * nat n + nat n" for j
    using that by (metis add.commute div_nat_eqI mult.commute mult_Suc_right)
  show ?case
    using Suc by (auto simp: weight_column_nth div)
qed

lemma apply_coeffs_kltb:
  "j < length (kltb_buf s) \<Longrightarrow> j < nat (num_eig s) * nat (acm_order s) \<Longrightarrow>
   kltb_buf (apply_coeffs s) ! j = cmul (kltb_buf s ! j) (kltc_buf s ! (j div nat (acm_order s)))"
  using fold_weight_column [of "acm_order s" "kltc_buf s" "nat (num_eig s)" "kltb_buf s"]
  by (simp add: apply_coeffs_def)

lemma call_lengths [simp]:
  "length (kltb_buf (snd (call_cstein L m s))) = length (kltb_buf s)"
  "length (kltb_buf (snd (call_cupmtr L m s))) = length (kltb_buf s)"
  "length (eval_buf (snd (snd (snd (call_sstebz L s))))) = length (eval_buf s)"
  "length (kltb_buf (zero_outputs s)) = length (kltb_buf s)"
  "length (eval_buf (zero_outputs s)) = length (eval_buf s)"
  by (simp_all add: call_cstein_def call_cupmtr_def call_sstebz_def zero_outputs_def split_beta)

lemma eigendecomp_lengths [simp]:
  "length (kltb_buf (final (eigendecomp L s))) = length (kltb_buf s)"
  "length (eval_buf (final (eigendecomp L s))) = length (eval_buf s)"
  by (simp_all add: eigendecomp_stages Let_def)




text \<open>A cell of the basis after a call that returned.\<close>

lemma returned_basis_cell:
  assumes ok: "klt_ok s" and thr: "thrown (transform B L s) = None"
    and j: "j < nat (num_eig s) * nat (acm_order s)"
  shows "kltb_buf (final (transform B L s)) ! j =
         cmul (kltb_buf (final (eigendecomp L (acorr_matrix (windowed B s)))) ! j)
           (projection (acm_order s) (in_buf (windowed B s))
              (kltb_buf (final (eigendecomp L (acorr_matrix (windowed B s)))))
              (j div nat (acm_order s)))"
proof -
  let ?n = "nat (acm_order s)" and ?k = "nat (num_eig s)"
  let ?sE = "final (eigendecomp L (acorr_matrix (windowed B s)))"
  let ?sC = "compute_coeffs (normalized B ?sE)"
  have cfg: "acm_order ?sE = acm_order s" "num_eig ?sE = num_eig s"
    and inb: "in_buf ?sE = in_buf (windowed B s)"
    and lc: "length (kltc_buf ?sE) = ?k"
    and lb: "length (kltb_buf ?sE) = nat (acm_order s * num_eig s)"
    using ok by (simp_all add: klt_ok_def buffers_ok_def)
  have n: "0 < ?n" and nk: "nat (acm_order s * num_eig s) = ?k * ?n"
    using ok by (simp_all add: klt_ok_def config_ok_def nat_mult_distrib mult.commute)
  have fin: "final (transform B L s) = apply_coeffs ?sC"
    using thr by (simp add: transform_final transform_thrown Let_def)
  have kc: "kltc_buf ?sC =
      map (projection (acm_order s) (in_buf (windowed B s)) (kltb_buf ?sE)) [0..<?k]"
    using compute_coeffs_kltc [of "normalized B ?sE"] lc cfg inb by simp
  have d: "j div ?n < ?k"
    using j n by (simp add: less_mult_imp_div_less)
  have "kltb_buf (apply_coeffs ?sC) ! j =
      cmul (kltb_buf ?sC ! j) (kltc_buf ?sC ! (j div nat (acm_order ?sC)))"
    using j lb nk cfg by (intro apply_coeffs_kltb) simp_all
  then show ?thesis using d cfg by (simp add: fin kc)
qed




text \<open>In exact arithmetic the coefficient is the sum of the spec, as a complex number.\<close>

lemma exact_coefficient:
  fixes s :: "real klt"
  assumes ok: "klt_ok s"
    and ret: "eigendecomp L (acorr_matrix (windowed B s)) = Returned sE"
    and i: "i < nat (num_eig s)"
  shows "to_complex (kltc_buf (final (transform B L s)) ! i) =
         (\<Sum>t<nat (acm_order s).
            to_complex (in_buf (windowed B s) ! t) *
            cnj (to_complex (kltb_buf sE ! (i * nat (acm_order s) + t))))"
proof -
  have sE: "sE = final (eigendecomp L (acorr_matrix (windowed B s)))" using ret by simp
  have cfg: "acm_order sE = acm_order s" "num_eig sE = num_eig s"
    and inb: "in_buf sE = in_buf (windowed B s)"
    and lc: "length (kltc_buf sE) = nat (num_eig s)"
    using ok unfolding sE by (simp_all add: klt_ok_def buffers_ok_def)
  have "final (transform B L s) = apply_coeffs (compute_coeffs (normalized B sE))"
    using ret by (simp add: transform_def)
  then have "kltc_buf (final (transform B L s)) ! i =
      projection (acm_order s) (in_buf (windowed B s)) (kltb_buf sE) i"
    using compute_coeffs_kltc [of "normalized B sE"] lc cfg inb i by simp
  then show ?thesis by (simp add: projection_def to_complex_foldl)
qed

section \<open>Eigenvalue normalization\<close>

lemma fold_std_max:
  "k \<le> length evb \<Longrightarrow>
   fold (\<lambda>eidx m. std_max (evb ! eidx) m) [0..<k] z = foldl (\<lambda>m e. std_max e m) z (take k evb)"
  by (induction k) (simp_all add: take_Suc_conv_app_nth)

lemma fold_rescale:
  "k \<le> length evb \<Longrightarrow>
   fold (\<lambda>eidx ev. ev[eidx := ev ! eidx * r]) [0..<k] evb =
     map (\<lambda>x. x * r) (take k evb) @ drop k evb"
proof (induction k)
  case 0
  then show ?case by simp
next
  case (Suc k)
  then have k: "k < length evb" by simp
  let ?done = "map (\<lambda>x. x * r) (take k evb)"
  have "fold (\<lambda>eidx ev. ev[eidx := ev ! eidx * r]) [0..<Suc k] evb =
        (?done @ drop k evb)[k := (?done @ drop k evb) ! k * r]"
    using Suc by simp
  also have "\<dots> = ?done @ (drop k evb)[0 := evb ! k * r]"
    using k by (simp add: list_update_append nth_append)
  also have "(drop k evb)[0 := evb ! k * r] = evb ! k * r # drop (Suc k) evb"
    using k by (simp add: Cons_nth_drop_Suc [symmetric])
  finally show ?case using k by (simp add: take_Suc_conv_app_nth)
qed

lemma normalize_evals_eq:
  assumes "nat (num_eig s) \<le> length (eval_buf s)"
  shows "take (nat (num_eig s)) (eval_buf (normalize_evals s)) =
         map (\<lambda>e. e * (1 / foldl (\<lambda>m e. std_max e m) 0 (take (nat (num_eig s)) (eval_buf s))))
           (take (nat (num_eig s)) (eval_buf s))"
  using assms by (simp add: normalize_evals_def max_eval_def fold_std_max fold_rescale)

text \<open>In exact arithmetic the running maximum from 0 is the maximum of 0 and the values.\<close>

lemma foldl_std_max_real:
  fixes xs :: "real list"
  shows "foldl (\<lambda>m e. std_max e m) z xs = Max (insert z (set xs))"
proof (induction xs arbitrary: z)
  case Nil
  then show ?case by simp
next
  case (Cons x xs)
  have "std_max x z = max x z" by (simp add: std_max_def max_def)
  then have "foldl (\<lambda>m e. std_max e m) z (x # xs) = Max (insert (max x z) (set xs))"
    using Cons by simp
  also have "\<dots> = Max (insert z (set (x # xs)))"
  proof (cases "xs = []")
    case True
    then show ?thesis by (simp add: max.commute)
  next
    case False
    then show ?thesis by (simp add: max.assoc max.left_commute max.commute)
  qed
  finally show ?case .
qed


lemma windowed_evaln [simp]: "windowed (B\<lparr>KLT_SUPPORT_EVALN := v\<rparr>) s = windowed B s"
  by (simp add: windowed_def)


lemma normalized_eigenvalues:
  assumes evaln: "KLT_SUPPORT_EVALN B" "eval_normalized s \<noteq> 0"
    and ok: "klt_ok s"
    and ret: "eigendecomp L (acorr_matrix (windowed B s)) = Returned sE"
  shows "take (nat (num_eig s)) (eval_buf (final (transform B L s))) =
           map (\<lambda>e. e * (1 / foldl (\<lambda>m e. std_max e m) 0
                                (take (nat (num_eig s)) (eval_buf sE))))
             (take (nat (num_eig s)) (eval_buf sE))"
proof -
  let ?k = "nat (num_eig s)"
  let ?s0 = "acorr_matrix (windowed B s)"
  have sE: "sE = final (eigendecomp L ?s0)" using ret by simp
  have cfg: "num_eig sE = num_eig s" "eval_normalized sE = eval_normalized s"
    and len: "length (eval_buf sE) = nat (acm_order s)"
    using ok unfolding sE by (simp_all add: klt_ok_def buffers_ok_def)
  have k: "?k \<le> nat (acm_order s)"
    using ok by (auto simp: klt_ok_def config_ok_def)
  have nrm: "normalized B sE = normalize_evals sE"
    using evaln cfg by (simp add: normalized_def)
  have fin: "final (transform B L s) = apply_coeffs (compute_coeffs (normalize_evals sE))"
    using ret nrm by (simp add: transform_def)
  have "take (nat (num_eig sE)) (eval_buf (normalize_evals sE)) =
      map (\<lambda>e. e * (1 / foldl (\<lambda>m e. std_max e m) 0 (take (nat (num_eig sE)) (eval_buf sE))))
        (take (nat (num_eig sE)) (eval_buf sE))"
    using k len cfg by (intro normalize_evals_eq) simp
  then show ?thesis by (simp add: fin cfg)
qed



text \<open>
  In exact arithmetic, when the largest retained eigenvalue is positive, each retained
  eigenvalue becomes its quotient by the largest, the largest becomes 1 and the order of
  the eigenvalues is unchanged.
\<close>

lemma exact_normalization:
  fixes s :: "real klt"
  assumes evaln: "KLT_SUPPORT_EVALN B" "eval_normalized s \<noteq> 0"
    and ok: "klt_ok s"
    and ret: "eigendecomp L (acorr_matrix (windowed B s)) = Returned sE"
    and ev: "ev = take (nat (num_eig s)) (eval_buf sE)"
    and pos: "0 < Max (set ev)"
  shows "take (nat (num_eig s)) (eval_buf (final (transform B L s))) =
           map (\<lambda>x. x / Max (set ev)) ev \<and>
         Max ((\<lambda>x. x / Max (set ev)) ` set ev) = 1 \<and>
         (\<forall>x y. x / Max (set ev) \<le> y / Max (set ev) \<longleftrightarrow> x \<le> y)"
proof -
  let ?k = "nat (num_eig s)" and ?M = "Max (set ev)"
  have sE: "sE = final (eigendecomp L (acorr_matrix (windowed B s)))" using ret by simp
  have len: "length (eval_buf sE) = nat (acm_order s)"
    using ok unfolding sE by (simp add: klt_ok_def buffers_ok_def)
  have k: "0 < ?k" "?k \<le> nat (acm_order s)"
    using ok by (auto simp: klt_ok_def config_ok_def)
  have lev: "length ev = ?k" using k len by (simp add: ev)
  then have ne: "set ev \<noteq> {}" using k by auto
  have "foldl (\<lambda>m e. std_max e m) 0 ev = Max (insert 0 (set ev))"
    by (rule foldl_std_max_real)
  also have "\<dots> = max 0 ?M" using ne by simp
  also have "\<dots> = ?M" using pos by simp
  finally have m: "foldl (\<lambda>m e. std_max e m) 0 ev = ?M" .
  have "take ?k (eval_buf (final (transform B L s))) = map (\<lambda>e. e * (1 / ?M)) ev"
    using normalized_eigenvalues [OF evaln ok ret] by (simp add: ev [symmetric] m)
  then have e: "take ?k (eval_buf (final (transform B L s))) = map (\<lambda>x. x / ?M) ev"
    by simp
  have "Max ((\<lambda>x. x / ?M) ` set ev) = Max (set ev) / ?M"
    using ne pos by (intro mono_Max_commute [symmetric] monoI) (simp_all add: divide_right_mono)
  then have mx: "Max ((\<lambda>x. x / ?M) ` set ev) = 1" using pos by simp
  have o: "\<forall>x y. x / ?M \<le> y / ?M \<longleftrightarrow> x \<le> y"
    using pos by (simp add: divide_le_cancel)
  show ?thesis using e mx o by simp
qed



section \<open>Reuse of the buffers across calls\<close>

lemma store_full: "length buf \<le> k \<Longrightarrow> store k f buf = map f [0..<length buf]"
  by (simp add: store_def)

lemma take_store:
  "length a = length b \<Longrightarrow> take k (store k f a) = take k (store k f b)"
  by (rule nth_equalityI) (simp_all add: store_def)

lemma length_fold_update:
  "length (fold (\<lambda>i xs. xs[i := g i xs]) js xs) = length xs"
  by (induction js arbitrary: xs) simp_all

lemma windowed_in_buf_length [simp]: "length (in_buf (windowed B s)) = length (in_buf s)"
  by (simp add: windowed_def apply_window_def length_fold_update)

lemma windowed_ok: "klt_ok s \<Longrightarrow> klt_ok (windowed B s)"
  by (simp add: klt_ok_def config_ok_def buffers_ok_def)

lemma windowed_same: "same_setup a b \<Longrightarrow> same_setup (windowed B a) (windowed B b)"
  by (simp add: same_setup_def) (simp add: windowed_def apply_window_def)

lemma acorr_matrix_ok: "klt_ok s \<Longrightarrow> klt_ok (acorr_matrix s)"
  using length_acorr_matrix [of s] by (simp add: klt_ok_def config_ok_def buffers_ok_def)

lemma acorr_matrix_same: "same_setup a b \<Longrightarrow> same_setup (acorr_matrix a) (acorr_matrix b)"
  by (simp add: same_setup_def)

lemma acorr_matrix_determined:
  assumes oka: "klt_ok a" and okb: "klt_ok b" and same: "same_setup a b"
  shows "ac_buf (acorr_matrix a) = ac_buf (acorr_matrix b)"
proof (rule nth_equalityI)
  show len: "length (ac_buf (acorr_matrix a)) = length (ac_buf (acorr_matrix b))"
    using length_acorr_matrix [OF oka] length_acorr_matrix [OF okb] same
    by (simp add: same_setup_def)
  fix j
  assume "j < length (ac_buf (acorr_matrix a))"
  then have "j < col_start (nat (acm_order a)) (nat (acm_order a))"
    using length_acorr_matrix [OF oka] col_start_full [of "acm_order a"] klt_ok_sizes(1) [OF oka]
    by simp
  then obtain c r where cr: "c \<le> r" "r < nat (acm_order a)"
    and j: "j = col_start (nat (acm_order a)) c + (r - c)"
    using col_start_cover [of j "nat (acm_order a)" "nat (acm_order a)"] by auto
  have "ac_buf (acorr_matrix a) ! j = lag_sum (in_len a) (in_buf a) (r - c)"
    unfolding j using oka cr by (rule acorr_matrix_cell)
  moreover have "ac_buf (acorr_matrix b) ! j = lag_sum (in_len b) (in_buf b) (r - c)"
    using acorr_matrix_cell [OF okb, of c r] cr same unfolding j by (simp add: same_setup_def)
  ultimately show "ac_buf (acorr_matrix a) ! j = ac_buf (acorr_matrix b) ! j"
    using same by (simp add: same_setup_def)
qed

text \<open>The four calls on two engines that agree on what the call reads.\<close>

lemma call_ok [simp]:
  "buffers_ok (snd (call_chptrd L s)) = buffers_ok s"
  "buffers_ok (snd (snd (snd (call_sstebz L s)))) = buffers_ok s"
  "buffers_ok (snd (call_cstein L m s)) = buffers_ok s"
  "buffers_ok (snd (call_cupmtr L m s)) = buffers_ok s"
  "buffers_ok (zero_outputs s) = buffers_ok s"
  by (simp_all add: buffers_ok_def call_chptrd_def call_sstebz_def call_cstein_def
      call_cupmtr_def zero_outputs_def split_beta)

lemma call_same [simp]:
  "same_setup (snd (call_chptrd L a)) (snd (call_chptrd L b)) = same_setup a b"
  "same_setup (snd (snd (snd (call_sstebz L a)))) (snd (snd (snd (call_sstebz L b)))) = same_setup a b"
  "same_setup (snd (call_cstein L m a)) (snd (call_cstein L m b)) = same_setup a b"
  "same_setup (snd (call_cupmtr L m a)) (snd (call_cupmtr L m b)) = same_setup a b"
  by (simp_all add: same_setup_def)

lemma chptrd_agree:
  assumes "same_setup a b" "buffers_ok a" "buffers_ok b" "ac_buf a = ac_buf b"
  shows "fst (call_chptrd L a) = fst (call_chptrd L b)"
    and "ac_buf (snd (call_chptrd L a)) = ac_buf (snd (call_chptrd L b))"
    and "d_buf (snd (call_chptrd L a)) = d_buf (snd (call_chptrd L b))"
    and "e_buf (snd (call_chptrd L a)) = e_buf (snd (call_chptrd L b))"
    and "tau_buf (snd (call_chptrd L a)) = tau_buf (snd (call_chptrd L b))"
  using assms
  by (simp_all add: call_chptrd_def split_beta same_setup_def buffers_ok_def store_full)

lemma sstebz_agree:
  assumes "same_setup a b" "buffers_ok a" "buffers_ok b" "d_buf a = d_buf b" "e_buf a = e_buf b"
  shows "fst (call_sstebz L a) = fst (call_sstebz L b)"
    and "fst (snd (call_sstebz L a)) = fst (snd (call_sstebz L b))"
    and "eval_buf (snd (snd (snd (call_sstebz L a)))) = eval_buf (snd (snd (snd (call_sstebz L b))))"
    and "ib_buf (snd (snd (snd (call_sstebz L a)))) = ib_buf (snd (snd (snd (call_sstebz L b))))"
    and "is_buf (snd (snd (snd (call_sstebz L a)))) = is_buf (snd (snd (snd (call_sstebz L b))))"
  using assms
  by (simp_all add: call_sstebz_def il_def iu_def split_beta same_setup_def buffers_ok_def
      store_full)

lemma cstein_agree:
  assumes "same_setup a b" "buffers_ok a" "buffers_ok b" "d_buf a = d_buf b" "e_buf a = e_buf b"
    "eval_buf a = eval_buf b" "ib_buf a = ib_buf b" "is_buf a = is_buf b"
  shows "fst (call_cstein L m a) = fst (call_cstein L m b)"
    and "take (nat (acm_order a * m)) (kltb_buf (snd (call_cstein L m a))) =
         take (nat (acm_order a * m)) (kltb_buf (snd (call_cstein L m b)))"
  using assms
  by (simp_all add: call_cstein_def split_beta same_setup_def buffers_ok_def take_store)

lemma cupmtr_agree:
  assumes "same_setup a b" "buffers_ok a" "buffers_ok b" "ac_buf a = ac_buf b"
    "tau_buf a = tau_buf b"
    "take (nat (acm_order a * m)) (kltb_buf a) = take (nat (acm_order a * m)) (kltb_buf b)"
  shows "fst (call_cupmtr L m a) = fst (call_cupmtr L m b)"
    and "take (nat (acm_order a * m)) (kltb_buf (snd (call_cupmtr L m a))) =
         take (nat (acm_order a * m)) (kltb_buf (snd (call_cupmtr L m b)))"
  using assms
  by (simp_all add: call_cupmtr_def split_beta same_setup_def buffers_ok_def take_store)

lemma take_store_const:
  "k \<le> length buf \<Longrightarrow> take k (store k (\<lambda>i. v) buf) = replicate k v"
  by (rule nth_equalityI) (simp_all add: store_def)

lemma store_const_full:
  "length buf \<le> k \<Longrightarrow> store k (\<lambda>i. v) buf = replicate (length buf) v"
  by (rule nth_equalityI) (simp_all add: store_def)

lemma zero_outputs_cleared:
  assumes "klt_ok s"
  shows "take (nat (num_eig s)) (eval_buf (zero_outputs s)) = replicate (nat (num_eig s)) 0"
    and "kltb_buf (zero_outputs s) = replicate (nat (acm_order s * num_eig s)) 0"
proof -
  from assms have "num_eig s \<le> acm_order s" "length (eval_buf s) = nat (acm_order s)"
    and b: "length (kltb_buf s) = nat (acm_order s * num_eig s)"
    by (simp_all add: klt_ok_def config_ok_def buffers_ok_def)
  then have k: "nat (num_eig s) \<le> length (eval_buf s)"
    by (simp add: nat_mono)
  show "take (nat (num_eig s)) (eval_buf (zero_outputs s)) = replicate (nat (num_eig s)) 0"
    using k by (simp add: zero_outputs_def take_store_const)
  show "kltb_buf (zero_outputs s) = replicate (nat (acm_order s * num_eig s)) 0"
    using b by (simp add: zero_outputs_def store_const_full mult.commute)
qed

lemma call_config [simp]:
  "config_ok (snd (call_chptrd L s)) = config_ok s"
  "config_ok (snd (snd (snd (call_sstebz L s)))) = config_ok s"
  "config_ok (snd (call_cstein L m s)) = config_ok s"
  "config_ok (snd (call_cupmtr L m s)) = config_ok s"
  "config_ok (zero_outputs s) = config_ok s"
  by (simp_all add: config_ok_def)

lemma eigendecomp_ok: "klt_ok (final (eigendecomp L s)) = klt_ok s"
  by (simp add: eigendecomp_stages Let_def klt_ok_def)

lemma failed_eigendecomp_cleared:
  assumes ok: "klt_ok s" and thr: "thrown (eigendecomp L s) \<noteq> None"
  shows "take (nat (num_eig s)) (eval_buf (final (eigendecomp L s))) =
           replicate (nat (num_eig s)) 0 \<and>
         kltb_buf (final (eigendecomp L s)) = replicate (nat (acm_order s * num_eig s)) 0"
proof -
  obtain t where t: "final (eigendecomp L s) = zero_outputs t" and okt: "klt_ok t"
    and cfg: "num_eig t = num_eig s" "acm_order t = acm_order s"
    using thr ok
    by (simp add: eigendecomp_stages Let_def klt_ok_def split: if_splits)
  show ?thesis
    using zero_outputs_cleared [OF okt] by (simp add: t cfg)
qed

lemma eigendecomp_agree:
  assumes same: "same_setup a b" and oka: "klt_ok a" and okb: "klt_ok b"
    and ac: "ac_buf a = ac_buf b"
  shows "thrown (eigendecomp L a) = thrown (eigendecomp L b)"
    and "thrown (eigendecomp L a) = None \<Longrightarrow>
         fst (snd (call_sstebz L (snd (call_chptrd L a)))) = num_eig a \<Longrightarrow>
         eval_buf (final (eigendecomp L a)) = eval_buf (final (eigendecomp L b)) \<and>
         kltb_buf (final (eigendecomp L a)) = kltb_buf (final (eigendecomp L b))"
proof -
  from oka okb have ba: "buffers_ok a" and bb: "buffers_ok b"
    by (simp_all add: klt_ok_def)
  define a1 where "a1 = snd (call_chptrd L a)"
  define b1 where "b1 = snd (call_chptrd L b)"
  define m where "m = fst (snd (call_sstebz L a1))"
  define a2 where "a2 = snd (snd (snd (call_sstebz L a1)))"
  define b2 where "b2 = snd (snd (snd (call_sstebz L b1)))"
  define a3 where "a3 = snd (call_cstein L m a2)"
  define b3 where "b3 = snd (call_cstein L m b2)"
  define a4 where "a4 = snd (call_cupmtr L m a3)"
  define b4 where "b4 = snd (call_cupmtr L m b3)"
  note c1 = chptrd_agree [OF same ba bb ac, where L = L, folded a1_def b1_def]
  have s1: "same_setup a1 b1" "buffers_ok a1" "buffers_ok b1"
    using same ba bb by (simp_all add: a1_def b1_def)
  note c2 = sstebz_agree [OF s1 c1(3,4), where L = L, folded a2_def b2_def m_def]
  have mb: "fst (snd (call_sstebz L b1)) = m" using c2(2) by (simp add: m_def)
  have s2: "same_setup a2 b2" "buffers_ok a2" "buffers_ok b2"
    using s1 by (simp_all add: a2_def b2_def)
  have r2: "d_buf a2 = d_buf b2" "e_buf a2 = e_buf b2" "ac_buf a2 = ac_buf b2"
    "tau_buf a2 = tau_buf b2"
    using c1 by (simp_all add: a2_def b2_def)
  note c3 = cstein_agree [OF s2 r2(1,2) c2(3,4,5), where L = L and m = m, folded a3_def b3_def]
  have s3: "same_setup a3 b3" "buffers_ok a3" "buffers_ok b3"
    using s2 by (simp_all add: a3_def b3_def)
  have r3: "ac_buf a3 = ac_buf b3" "tau_buf a3 = tau_buf b3" "acm_order a3 = acm_order a2"
    "eval_buf a3 = eval_buf b3"
    using r2 c2 by (simp_all add: a3_def b3_def)
  note c4 = cupmtr_agree [OF s3 r3(1,2) c3(2) [folded r3(3)], where L = L, folded a4_def b4_def]
  have ea: "eigendecomp L a =
      (if fst (call_chptrd L a) \<noteq> 0
       then Thrown (Lapack_failed Chptrd (fst (call_chptrd L a))) (zero_outputs a1)
       else if fst (call_sstebz L a1) \<noteq> 0
       then Thrown (Lapack_failed Sstebz (fst (call_sstebz L a1))) (zero_outputs a2)
       else if fst (call_cstein L m a2) \<noteq> 0
       then Thrown (Lapack_failed Cstein (fst (call_cstein L m a2))) (zero_outputs a3)
       else if fst (call_cupmtr L m a3) \<noteq> 0
       then Thrown (Lapack_failed Cupmtr (fst (call_cupmtr L m a3))) (zero_outputs a4)
       else Returned a4)"
    by (simp add: eigendecomp_stages Let_def a1_def a2_def a3_def a4_def m_def)
  have eb: "eigendecomp L b =
      (if fst (call_chptrd L b) \<noteq> 0
       then Thrown (Lapack_failed Chptrd (fst (call_chptrd L b))) (zero_outputs b1)
       else if fst (call_sstebz L b1) \<noteq> 0
       then Thrown (Lapack_failed Sstebz (fst (call_sstebz L b1))) (zero_outputs b2)
       else if fst (call_cstein L m b2) \<noteq> 0
       then Thrown (Lapack_failed Cstein (fst (call_cstein L m b2))) (zero_outputs b3)
       else if fst (call_cupmtr L m b3) \<noteq> 0
       then Thrown (Lapack_failed Cupmtr (fst (call_cupmtr L m b3))) (zero_outputs b4)
       else Returned b4)"
    by (simp add: eigendecomp_stages Let_def b1_def b2_def b3_def b4_def mb [unfolded b1_def])
  show "thrown (eigendecomp L a) = thrown (eigendecomp L b)"
    unfolding ea eb using c1(1) c2(1) c3(1) c4(1) by simp
  assume ret: "thrown (eigendecomp L a) = None"
    and found: "fst (snd (call_sstebz L (snd (call_chptrd L a)))) = num_eig a"
  then have fa: "final (eigendecomp L a) = a4" unfolding ea by (simp split: if_splits)
  from ret have "thrown (eigendecomp L b) = None"
    using \<open>thrown (eigendecomp L a) = thrown (eigendecomp L b)\<close> by simp
  then have fb: "final (eigendecomp L b) = b4" unfolding eb by (simp split: if_splits)
  have mk: "m = num_eig a" using found by (simp add: m_def a1_def)
  have la: "length (kltb_buf a4) = nat (acm_order a * m)"
    and lb: "length (kltb_buf b4) = nat (acm_order a * m)"
    using ba bb same
    by (simp_all add: a4_def b4_def a3_def b3_def a2_def b2_def a1_def b1_def mk buffers_ok_def
        same_setup_def)
  have n3: "acm_order a3 = acm_order a"
    by (simp add: a3_def a2_def a1_def)
  have "kltb_buf a4 = kltb_buf b4"
    using c4(2) la lb unfolding n3 by simp
  moreover have "eval_buf a4 = eval_buf b4"
    using r3(4) by (simp add: a4_def b4_def)
  ultimately show "eval_buf (final (eigendecomp L a)) = eval_buf (final (eigendecomp L b)) \<and>
         kltb_buf (final (eigendecomp L a)) = kltb_buf (final (eigendecomp L b))"
    by (simp add: fa fb)
qed

lemma normalized_ok: "klt_ok (normalized B s) = klt_ok s"
  by (simp add: klt_ok_def config_ok_def buffers_ok_def)
    (simp add: normalized_def normalize_evals_def Let_def length_fold_update)

lemma compute_coeffs_ok: "klt_ok s \<Longrightarrow> klt_ok (compute_coeffs s)"
  using compute_coeffs_kltc [of s]
  by (simp add: klt_ok_def config_ok_def buffers_ok_def)

lemma apply_coeffs_ok: "klt_ok (apply_coeffs s) = klt_ok s"
  using fold_weight_column [of "acm_order s" "kltc_buf s" "nat (num_eig s)" "kltb_buf s"]
  by (simp add: klt_ok_def config_ok_def buffers_ok_def) (simp add: apply_coeffs_def)

lemma transform_ok:
  assumes "klt_ok s"
  shows "klt_ok (final (transform B L s))"
proof -
  let ?E = "eigendecomp L (acorr_matrix (windowed B s))"
  have "klt_ok (final ?E)"
    using assms by (simp add: eigendecomp_ok acorr_matrix_ok windowed_ok)
  then show ?thesis
    by (simp add: transform_final Let_def apply_coeffs_ok compute_coeffs_ok normalized_ok)
qed


text \<open>
  C7, as the code has it. Two calls on engines with the same configuration and the same
  input, whatever earlier calls left in the other buffers: both return or both throw the
  same error; when they throw, the \<open>num_eig\<close> eigenvalues and the basis are the same
  (cleared); when they return and the search found exactly \<open>num_eig\<close> eigenvalues, the
  eigenvalues, the coefficients and the basis are the same; and the engine is well-formed
  after the call, returned or thrown, so it can be called again. Nothing is said here of
  the coefficient buffer after a failure.
\<close>

theorem transform_deterministic:
  assumes ok1: "klt_ok s1" and ok2: "klt_ok s2" and same: "same_setup s1 s2"
  shows "thrown (transform B L s1) = thrown (transform B L s2) \<and>
         (thrown (transform B L s1) \<noteq> None \<longrightarrow>
            take (nat (num_eig s1)) (eval_buf (final (transform B L s1))) =
              take (nat (num_eig s1)) (eval_buf (final (transform B L s2))) \<and>
            kltb_buf (final (transform B L s1)) = kltb_buf (final (transform B L s2))) \<and>
         (thrown (transform B L s1) = None \<and> num_eig_found B L s1 = num_eig s1 \<longrightarrow>
            outputs (final (transform B L s1)) = outputs (final (transform B L s2))) \<and>
         klt_ok (final (transform B L s1))"
proof -
  let ?y1 = "acorr_matrix (windowed B s1)" and ?y2 = "acorr_matrix (windowed B s2)"
  let ?E1 = "eigendecomp L ?y1" and ?E2 = "eigendecomp L ?y2"
  have oky: "klt_ok ?y1" "klt_ok ?y2"
    using ok1 ok2 by (simp_all add: acorr_matrix_ok windowed_ok)
  have samey: "same_setup ?y1 ?y2"
    using same by (simp add: acorr_matrix_same windowed_same)
  have acy: "ac_buf ?y1 = ac_buf ?y2"
    using ok1 ok2 same by (intro acorr_matrix_determined windowed_ok windowed_same)
  note agree = eigendecomp_agree [OF samey oky acy, where L = L]
  have cfg: "num_eig s2 = num_eig s1" "acm_order s2 = acm_order s1"
    using same by (simp_all add: same_setup_def)
  have thr: "thrown (transform B L s1) = thrown (transform B L s2)"
    using agree(1) by (simp add: transform_thrown)
  have failed: "take (nat (num_eig s1)) (eval_buf (final (transform B L s1))) =
        take (nat (num_eig s1)) (eval_buf (final (transform B L s2))) \<and>
      kltb_buf (final (transform B L s1)) = kltb_buf (final (transform B L s2))"
    if t: "thrown (transform B L s1) \<noteq> None"
  proof -
    from t have t1: "thrown ?E1 \<noteq> None" and t2: "thrown ?E2 \<noteq> None"
      using agree(1) by (simp_all add: transform_thrown)
    then have "final (transform B L s1) = final ?E1" "final (transform B L s2) = final ?E2"
      by (auto simp: transform_final Let_def)
    then show ?thesis
      using failed_eigendecomp_cleared [OF oky(1) t1] failed_eigendecomp_cleared [OF oky(2) t2]
      by (simp add: cfg)
  qed
  have found: "outputs (final (transform B L s1)) = outputs (final (transform B L s2))"
    if t: "thrown (transform B L s1) = None" and m: "num_eig_found B L s1 = num_eig s1"
  proof -
    from t have t1: "thrown ?E1 = None" and t2: "thrown ?E2 = None"
      using agree(1) by (simp_all add: transform_thrown)
    have m': "fst (snd (call_sstebz L (snd (call_chptrd L ?y1)))) = num_eig ?y1"
      using m by (simp add: num_eig_found_def reduced_def)
    from agree(2) [OF t1 m'] have ev: "eval_buf (final ?E1) = eval_buf (final ?E2)"
      and kb: "kltb_buf (final ?E1) = kltb_buf (final ?E2)"
      by simp_all
    have fs: "same_setup (final ?E1) (final ?E2)"
      using samey by (simp add: same_setup_def)
    have lc: "length (kltc_buf (final ?E1)) = nat (num_eig (final ?E1))"
      "length (kltc_buf (final ?E2)) = nat (num_eig (final ?E2))"
      using ok1 ok2 by (simp_all add: klt_ok_def buffers_ok_def)
    let ?n1 = "normalized B (final ?E1)" and ?n2 = "normalized B (final ?E2)"
    have nev: "eval_buf ?n1 = eval_buf ?n2"
      using ev fs
      by (simp add: normalized_def normalize_evals_def max_eval_def same_setup_def)
    have kc: "kltc_buf (compute_coeffs ?n1) = kltc_buf (compute_coeffs ?n2)"
      using compute_coeffs_kltc [of ?n1] compute_coeffs_kltc [of ?n2] lc kb fs
      by (simp add: same_setup_def)
    have kb': "kltb_buf (apply_coeffs (compute_coeffs ?n1)) =
        kltb_buf (apply_coeffs (compute_coeffs ?n2))"
      using kc kb fs by (simp add: apply_coeffs_def same_setup_def)
    have "final (transform B L s1) = apply_coeffs (compute_coeffs ?n1)"
      "final (transform B L s2) = apply_coeffs (compute_coeffs ?n2)"
      using t1 t2 by (simp_all add: transform_final Let_def)
    then show ?thesis
      using nev kc kb' cfg by (simp add: outputs_def)
  qed
  show ?thesis
    using thr failed found transform_ok [OF ok1] by blast
qed


theorem transform_deterministic_witness:
  "klt_ok engine3 \<and> klt_ok engine3b \<and> same_setup engine3 engine3b \<and>
   thrown (transform shipped (solver 2 1 1) engine3) = None \<and>
   num_eig_found shipped (solver 2 1 1) engine3 = num_eig engine3 \<and>
   outputs (final (transform shipped (solver 2 1 1) engine3)) =
     outputs (final (transform shipped (solver 2 1 1) engine3b)) \<and>
   thrown (transform shipped chptrd_fails engine3) \<noteq> None \<and>
   kltb_buf (final (transform shipped chptrd_fails engine3)) =
     kltb_buf (final (transform shipped chptrd_fails engine3b))"
proof -
  have ok: "klt_ok engine3" "klt_ok engine3b"
    by (simp_all add: klt_ok_def config_ok_def buffers_ok_def engine3b_def engine3_def ac_size_def)
  have same: "same_setup engine3 engine3b"
    by (simp add: same_setup_def engine3b_def)
  have t: "thrown (transform shipped (solver 2 1 1) engine3) = None"
    by (simp add: transform_thrown eigendecomp_stages Let_def call_chptrd_def call_sstebz_def
        call_cstein_def call_cupmtr_def solver_def split_beta)
  have m: "num_eig_found shipped (solver 2 1 1) engine3 = num_eig engine3"
    by (simp add: num_eig_found_def call_sstebz_def solver_def engine3_def split_beta)
  have f: "thrown (transform shipped chptrd_fails engine3) \<noteq> None"
    by (simp add: transform_thrown eigendecomp_stages Let_def call_chptrd_def chptrd_fails_def
        solver_def split_beta)
  show ?thesis
    using transform_deterministic [OF ok same, of shipped "solver 2 1 1"]
      transform_deterministic [OF ok same, of shipped chptrd_fails] ok same t m f
    by simp
qed

text \<open>
  C7 as the spec states it fails when the search reports fewer eigenvalues than asked
  for, which \<^verbatim>\<open>eigendecomp\<close> accepts: the inverse iteration then writes one column only,
  and the second column of the basis is what the earlier call left, scaled. On the two
  engines \<open>engine3\<close> and \<open>engine3b\<close>, which differ in that residue only, the same window
  gives two different bases.
\<close>

theorem transform_residue:
  "klt_ok engine3 \<and> klt_ok engine3b \<and> same_setup engine3 engine3b \<and>
   thrown (transform shipped (solver 1 2 1) engine3) = None \<and>
   thrown (transform shipped (solver 1 2 1) engine3b) = None \<and>
   kltb_buf (final (transform shipped (solver 1 2 1) engine3)) ! 4 = cx 2 0 \<and>
   kltb_buf (final (transform shipped (solver 1 2 1) engine3b)) ! 4 = cx 98 0"
proof -
  have ok: "klt_ok engine3" "klt_ok engine3b"
    by (simp_all add: klt_ok_def config_ok_def buffers_ok_def engine3b_def engine3_def ac_size_def)
  have same: "same_setup engine3 engine3b"
    by (simp add: same_setup_def engine3b_def)
  have t: "thrown (transform shipped (solver 1 2 1) s) = None" for s
    by (simp add: transform_thrown eigendecomp_stages Let_def call_chptrd_def call_sstebz_def
        call_cstein_def call_cupmtr_def solver_def split_beta)
  have kb: "kltb_buf (final (eigendecomp (solver 1 2 1) (acorr_matrix engine3))) =
      [cx 0 1, cx 0 2, cx 0 3, cx 0 0, cx 1 0, cx 0 0]"
    "kltb_buf (final (eigendecomp (solver 1 2 1) (acorr_matrix engine3b))) =
      [cx 0 1, cx 0 2, cx 0 3, cx 0 0, cx 7 0, cx 0 0]"
    by (simp_all add: eigendecomp_stages Let_def call_chptrd_def call_sstebz_def
        call_cstein_def call_cupmtr_def solver_def split_beta store_def engine3b_def
        engine3_def upt_rec)
  have n: "acm_order engine3 = 3" "in_buf engine3 = [cx 1 0, cx 2 0, cx 0 1]"
    "acm_order engine3b = 3" "in_buf engine3b = [cx 1 0, cx 2 0, cx 0 1]"
    by (simp_all add: engine3b_def engine3_def)
  have j: "4 < nat (num_eig engine3) * nat (acm_order engine3)"
    "4 < nat (num_eig engine3b) * nat (acm_order engine3b)"
    by (simp_all add: engine3b_def engine3_def)
  have "kltb_buf (final (transform shipped (solver 1 2 1) engine3)) ! 4 =
      cmul (cx 1 0) (projection 3 [cx 1 0, cx 2 0, cx 0 1]
        [cx 0 1, cx 0 2, cx 0 3, cx 0 0, cx 1 0, cx 0 0] 1)"
    using returned_basis_cell [OF ok(1) t j(1), unfolded windowed_shipped kb] unfolding n
    by simp
  then have c: "kltb_buf (final (transform shipped (solver 1 2 1) engine3)) ! 4 = cx 2 0"
    by (simp add: projection_def upt_rec flt_defs)
  have "kltb_buf (final (transform shipped (solver 1 2 1) engine3b)) ! 4 =
      cmul (cx 7 0) (projection 3 [cx 1 0, cx 2 0, cx 0 1]
        [cx 0 1, cx 0 2, cx 0 3, cx 0 0, cx 7 0, cx 0 0] 1)"
    using returned_basis_cell [OF ok(2) t j(2), unfolded windowed_shipped kb] unfolding n
    by simp
  then have c': "kltb_buf (final (transform shipped (solver 1 2 1) engine3b)) ! 4 = cx 98 0"
    by (simp add: projection_def upt_rec flt_defs)
  show ?thesis using ok same t c c' by simp
qed


section \<open>A failed construction\<close>

text \<open>The constructor frees nothing: the heap it leaves extends the heap it found.\<close>

lemma allocate_keeps:
  "allocate A rs ps h = Some (res, h') \<Longrightarrow> take (length h) h' = h"
proof (induction rs arbitrary: ps h)
  case Nil
  then show ?case by simp
next
  case (Cons r rs)
  obtain name req where r: "r = (name, req)" by (cases r)
  show ?case
  proof (cases req)
    case None
    with Cons.prems r show ?thesis by simp
  next
    case (Some p)
    obtain sz bytes where p: "p = (sz, bytes)" by (cases p)
    show ?thesis
    proof (cases "A h ALIGN bytes")
      case None
      with Cons.prems r Some p show ?thesis by (simp add: posix_memalign_def)
    next
      case (Some a)
      with Cons.prems r \<open>req = Some p\<close> p
      have "allocate A rs (ps @ [(name, a)]) (h @ [(a, bytes)]) = Some (res, h')"
        by (simp add: posix_memalign_def)
      from Cons.IH [OF this] have "take (Suc (length h)) h' = h @ [(a, bytes)]" by simp
      then have "take (length h) (take (Suc (length h)) h') = take (length h) (h @ [(a, bytes)])"
        by simp
      then show ?thesis by (simp add: min_def)
    qed
  qed
qed

text \<open>Its error names one of the buffers and the size of that buffer.\<close>

lemma allocate_error:
  "allocate A rs ps h = Some (Inl err, h') \<Longrightarrow>
   \<exists>name sz bytes. (name, Some (sz, bytes)) \<in> set rs \<and> err = Alloc_failed name sz"
proof (induction rs arbitrary: ps h)
  case Nil
  then show ?case by simp
next
  case (Cons r rs)
  obtain name req where r: "r = (name, req)" by (cases r)
  show ?case
  proof (cases req)
    case None
    with Cons.prems r show ?thesis by simp
  next
    case (Some p)
    obtain sz bytes where p: "p = (sz, bytes)" by (cases p)
    show ?thesis
    proof (cases "A h ALIGN bytes")
      case None
      with Cons.prems r Some p show ?thesis by (auto simp: posix_memalign_def)
    next
      case (Some a)
      with Cons.prems r \<open>req = Some p\<close> p
      have "allocate A rs (ps @ [(name, a)]) (h @ [(a, bytes)]) = Some (Inl err, h')"
        by (simp add: posix_memalign_def)
      from Cons.IH [OF this] show ?thesis by auto
    qed
  qed
qed

text \<open>
  The constructor is defined, whatever the allocator answers, when its \<^verbatim>\<open>int\<close> arithmetic
  stays in range; it is so for every configuration with
  \<open>1 \<le> num_eig \<le> acm_order \<le> 46340\<close>.
\<close>

lemma allocate_defined:
  "\<forall>r \<in> set rs. snd r \<noteq> None \<Longrightarrow> allocate A rs ps h \<noteq> None"
proof (induction rs arbitrary: ps h)
  case Nil
  then show ?case by simp
next
  case (Cons r rs)
  then obtain name sz bytes where r: "r = (name, Some (sz, bytes))"
    by (cases r) auto
  from Cons have "allocate A rs ps' h' \<noteq> None" for ps' h' by simp
  then show ?case
    unfolding r by (cases "posix_memalign A h ALIGN bytes") auto
qed

lemma constructor_defined:
  assumes "1 \<le> k" "k \<le> n" "n \<le> 46340"
  shows "KLT_constructor A B inlen n k h \<noteq> None"
proof -
  have n: "1 \<le> n" using assms by simp
  have u1: "(n + 1) * n \<le> 46341 * 46340"
    using assms n by (intro mult_mono) simp_all
  have u2: "n * k \<le> 46340 * 46340"
    using assms n by (intro mult_mono) simp_all
  have l1: "0 \<le> (n + 1) * n" and l2: "0 \<le> n * k"
    using assms n by simp_all
  have "in_int ((n + 1) * n)" unfolding in_int_def using u1 l1 by linarith
  moreover have "in_int (n * k)" unfolding in_int_def using u2 l2 by linarith
  moreover have "in_int (n + 1)" "in_int (n - 1)"
    using assms n by (simp_all add: in_int_def)
  ultimately show ?thesis
    unfolding KLT_constructor_def
    by (intro allocate_defined) (simp add: allocations_def sized_by_int_def sized_by_size_t_def)
qed

text \<open>
  C6. The members are initialised to NULL and the destructor skips the members that are
  NULL, which is what the release of a partly constructed engine needs; but the
  constructor throws without a handler, and the destructor of an object whose
  constructor throws is never run. With \<open>in_len = acm_order = 40000\<close> and \<open>num_eig = 1\<close> on
  the machine \<open>limited\<close> (the product \<open>40001 * 40000\<close> is inside the range of \<^verbatim>\<open>int\<close>), the
  320000 bytes of \<open>in_buf\<close> are allocated, the 6400160000 bytes of \<open>ac_buf\<close> are refused,
  the error names \<open>ac_buf\<close> and its size 800020000, and the block of \<open>in_buf\<close> is still
  live when the caller sees the error. The destructor would have released it.
\<close>

theorem constructor_leaks:
  "KLT_constructor limited shipped 40000 40000 1 [] =
     Some (Inl (Alloc_failed ''ac_buf'' 800020000), [(128, 320000)]) \<and>
   KLT_destructor [(''in_buf'', 128)] [(128, 320000)] = []"
  by (simp add: KLT_constructor_def allocations_def sized_by_int_def sized_by_size_t_def
      in_int_def to_size_t_def size_t_mul_def shipped_def posix_memalign_def ALIGN_def
      limited_def KLT_destructor_def free_def)

end
